theory Spec2Isabelle
  imports Main "HOL-Library.Word"
begin

unbundle bit_operations_syntax

section \<open>JavaScript values\<close>

text \<open>
  The documents \<^verbatim>\<open>builder.js\<close> works on are JavaScript values obtained from
  \<^verbatim>\<open>JSON.parse\<close> or from object literals: \<^verbatim>\<open>null\<close>, booleans, numbers, strings,
  arrays and plain objects, and \<^verbatim>\<open>undefined\<close> for what is absent.

  \<^item> A number is kept as the text \<^verbatim>\<open>JSON.stringify\<close> prints for it. On the finite
    numbers of a JSON document that text determines the number up to the sign of zero,
    which neither \<^verbatim>\<open>===\<close> nor \<^verbatim>\<open>JSON.stringify\<close> sees.
  \<^item> A string is the list of its characters. The characters of HOL are 8 bits wide,
    which covers the ASCII text of compiler documents; other text is taken in its UTF-8
    encoding, the bytes \<^verbatim>\<open>crypto\<close> hashes.
  \<^item> An object is the list of its own enumerable properties in the order
    \<^verbatim>\<open>Object.entries\<close> enumerates them.
  \<^item> An array is the list of its elements, followed by the named properties that have
    been stored on it (an array is an object, and \<^verbatim>\<open>a['k'] = v\<close> succeeds on it).

  A value is its own properties. What an object inherits from its prototype
  (\<^verbatim>\<open>constructor\<close>, \<^verbatim>\<open>toString\<close>, \<^verbatim>\<open>__proto__\<close>, ...) is not part of it, and \<open>get\<close>
  below reads own properties only: the code reads by names of its own, none of which a
  prototype defines, and by the name of a file of the input document, which is taken to
  be none of the inherited names when the output document has no record of that file.

  Assignments reach one inherited member, the accessor \<^verbatim>\<open>__proto__\<close> of
  \<^verbatim>\<open>Object.prototype\<close>: on an object without an own property of that name,
  \<^verbatim>\<open>o['__proto__'] = v\<close> adds no property and replaces the prototype of \<open>o\<close>. This is
  modelled where the code stores values under the names of files and contracts, in the
  extraction without a filter.
\<close>

datatype jsv =
    Undefined
  | Null
  | Bool bool
  | Num string
  | Str string
  | Arr "jsv list" "(string \<times> jsv) list"
  | Obj "(string \<times> jsv) list"

text \<open>What the code can throw: each exception of the source is a value.\<close>

datatype error =
    ReferenceError string  \<comment> \<open>an identifier that is not declared: its name\<close>
  | TypeError              \<comment> \<open>a property of \<^verbatim>\<open>null\<close> or \<^verbatim>\<open>undefined\<close>, a value that is not iterable\<close>
  | SyntaxError            \<comment> \<open>\<^verbatim>\<open>JSON.parse\<close> on a text that is no JSON\<close>
  | FsError string         \<comment> \<open>a file system call that fails: the path\<close>
  | Thrown jsv             \<comment> \<open>what a collaborator threw\<close>

definition bind :: "error + 'a \<Rightarrow> ('a \<Rightarrow> error + 'b) \<Rightarrow> error + 'b" where
  "bind m f = (case m of Inl e \<Rightarrow> Inl e | Inr x \<Rightarrow> f x)"

subsection \<open>Decimal indices\<close>

text \<open>The name of the array index \<open>n\<close>: its decimal digits.\<close>

definition digit_char :: "nat \<Rightarrow> char" where
  "digit_char d = ''0123456789'' ! d"

fun show_nat :: "nat \<Rightarrow> string" where
  "show_nat n = (if n < 10 then [digit_char n] else show_nat (n div 10) @ [digit_char (n mod 10)])"

declare show_nat.simps [simp del]

definition index_entries :: "jsv list \<Rightarrow> (string \<times> jsv) list" where
  "index_entries xs = zip (map show_nat [0..<length xs]) xs"

subsection \<open>Property access\<close>

text \<open>
  \<^verbatim>\<open>v[k]\<close>: a \<^verbatim>\<open>TypeError\<close> on \<^verbatim>\<open>null\<close> and \<^verbatim>\<open>undefined\<close>; the own property of an
  object, or \<^verbatim>\<open>undefined\<close>; on a primitive, \<^verbatim>\<open>undefined\<close> (a string has its
  characters and its length).
\<close>

definition lookup :: "(string \<times> jsv) list \<Rightarrow> string \<Rightarrow> jsv" where
  "lookup kvs k = (case map_of kvs k of None \<Rightarrow> Undefined | Some v \<Rightarrow> v)"

fun get :: "jsv \<Rightarrow> string \<Rightarrow> error + jsv" where
  "get Undefined k = Inl TypeError"
| "get Null k = Inl TypeError"
| "get (Bool b) k = Inr Undefined"
| "get (Num n) k = Inr Undefined"
| "get (Str s) k =
     Inr (case map_of (index_entries (map (\<lambda>c. Str [c]) s)) k of
            Some c \<Rightarrow> c
          | None \<Rightarrow> if k = ''length'' then Num (show_nat (length s)) else Undefined)"
| "get (Arr xs ps) k =
     Inr (case map_of (index_entries xs) k of
            Some x \<Rightarrow> x
          | None \<Rightarrow> if k = ''length'' then Num (show_nat (length xs)) else lookup ps k)"
| "get (Obj kvs) k = Inr (lookup kvs k)"

text \<open>
  \<^verbatim>\<open>o[k] = v\<close> on the properties of an object: an existing property keeps its place,
  a new one is enumerated last. (JavaScript enumerates a name that is an array index
  before the other names. The objects the code builds are read by name, never
  enumerated.)
\<close>

fun put :: "(string \<times> jsv) list \<Rightarrow> string \<Rightarrow> jsv \<Rightarrow> (string \<times> jsv) list" where
  "put [] k v = [(k, v)]"
| "put ((k', v') # kvs) k v = (if k' = k then (k, v) # kvs else (k', v') # put kvs k v)"

text \<open>
  \<^verbatim>\<open>b[k] = v\<close>. On an array the model covers the names that are neither an index nor
  \<^verbatim>\<open>length\<close>: the code assigns to \<^verbatim>\<open>outputSelection\<close>, \<^verbatim>\<open>settings\<close> and \<^verbatim>\<open>source\<close>
  only, and to the keys of objects it has just created. The module is not in strict mode,
  so an assignment to a property of a primitive is dropped silently.
\<close>

fun set_prop :: "jsv \<Rightarrow> string \<Rightarrow> jsv \<Rightarrow> error + jsv" where
  "set_prop Undefined k v = Inl TypeError"
| "set_prop Null k v = Inl TypeError"
| "set_prop (Bool b) k v = Inr (Bool b)"
| "set_prop (Num n) k v = Inr (Num n)"
| "set_prop (Str s) k v = Inr (Str s)"
| "set_prop (Arr xs ps) k v = Inr (Arr xs (put ps k v))"
| "set_prop (Obj kvs) k v = Inr (Obj (put kvs k v))"

text \<open>
  Objects are references: \<^verbatim>\<open>a[k][k'] = v\<close> changes the object stored at \<^verbatim>\<open>a[k]\<close>, and
  \<open>a\<close> with it. The documents are trees (\<^verbatim>\<open>JSON.parse\<close> and the object literals of
  the callers share nothing), so the model rebuilds the parent around the changed child:
  \<open>write_back a k c\<close> is \<open>a\<close> once the value \<open>a[k]\<close> has become \<open>c\<close>.
\<close>

fun write_back :: "jsv \<Rightarrow> string \<Rightarrow> jsv \<Rightarrow> jsv" where
  "write_back (Obj kvs) k c = Obj (put kvs k c)"
| "write_back (Arr xs ps) k c =
     (case List.find (\<lambda>i. show_nat i = k) [0..<length xs] of
        Some i \<Rightarrow> Arr (xs[i := c]) ps
      | None \<Rightarrow> if k = ''length'' then Arr xs ps else Arr xs (put ps k c))"
| "write_back a k c = a"

text \<open>\<^verbatim>\<open>v[k1][k2]...[kn]\<close>.\<close>

fun get_path :: "jsv \<Rightarrow> string list \<Rightarrow> error + jsv" where
  "get_path v [] = Inr v"
| "get_path v (k # ks) = bind (get v k) (\<lambda>c. get_path c ks)"

text \<open>\<^verbatim>\<open>v?.[k]\<close>.\<close>

definition optional_get :: "jsv \<Rightarrow> string \<Rightarrow> error + jsv" where
  "optional_get v k = (if v = Undefined \<or> v = Null then Inr Undefined else get v k)"

text \<open>\<^verbatim>\<open>Object.entries(v)\<close>.\<close>

fun entries :: "jsv \<Rightarrow> error + (string \<times> jsv) list" where
  "entries Undefined = Inl TypeError"
| "entries Null = Inl TypeError"
| "entries (Bool b) = Inr []"
| "entries (Num n) = Inr []"
| "entries (Str s) = Inr (index_entries (map (\<lambda>c. Str [c]) s))"
| "entries (Arr xs ps) = Inr (index_entries xs @ ps)"
| "entries (Obj kvs) = Inr kvs"

text \<open>What \<^verbatim>\<open>for (let x of v)\<close> runs through: arrays and strings are iterable.\<close>

fun iterate :: "jsv \<Rightarrow> error + jsv list" where
  "iterate (Arr xs ps) = Inr xs"
| "iterate (Str s) = Inr (map (\<lambda>c. Str [c]) s)"
| "iterate v = Inl TypeError"

text \<open>Truthiness, as \<^verbatim>\<open>if (v)\<close> and \<^verbatim>\<open>v || w\<close> test it.\<close>

fun truthy :: "jsv \<Rightarrow> bool" where
  "truthy Undefined = False"
| "truthy Null = False"
| "truthy (Bool b) = b"
| "truthy (Num n) = (n \<noteq> ''0'')"
| "truthy (Str s) = (s \<noteq> [])"
| "truthy (Arr xs ps) = True"
| "truthy (Obj kvs) = True"

section \<open>The settings augmenter\<close>

text \<open>
  \<^verbatim>\<open>a[k1]...[kn].push(v)\<close>: the element is appended to the array the path leads to,
  in place.
\<close>

fun push_at :: "jsv \<Rightarrow> string list \<Rightarrow> jsv \<Rightarrow> error + jsv" where
  "push_at (Arr xs ps) [] v = Inr (Arr (xs @ [v]) ps)"
| "push_at a [] v = Inl TypeError"
| "push_at a (k # ks) v =
     bind (get a k) (\<lambda>b. bind (push_at b ks v) (\<lambda>b'. Inr (write_back a k b')))"

text \<open>
  \<^verbatim>\<open>generate_settings(original = {})\<close>: the default is taken for \<^verbatim>\<open>undefined\<close> only.
  \<^verbatim>\<open>basic\<close> is the caller's object itself, which the function updates and returns.
\<close>

definition generate_settings :: "jsv \<Rightarrow> error + jsv" where
  "generate_settings original =
     (let basic = (if original = Undefined then Obj [] else original) in
      bind (set_prop basic ''outputSelection''
              (Obj [(''*'', Obj [(''*'', Arr [] []), ('''', Arr [] [])])])) (\<lambda>basic.
      bind (push_at basic [''outputSelection'', ''*'', ''*''] (Str ''ast'')) (\<lambda>basic.
      bind (push_at basic [''outputSelection'', ''*'', ''*''] (Str ''legacyAST'')) (\<lambda>basic.
      bind (push_at basic [''outputSelection'', ''*'', ''''] (Str ''ast'')) (\<lambda>basic.
      bind (push_at basic [''outputSelection'', ''*'', ''''] (Str ''legacyAST'')) (\<lambda>basic.
      bind (push_at basic [''outputSelection'', ''*'', ''*''] (Str ''evm.deployedBytecode.sourceMap'')) (\<lambda>basic.
      bind (push_at basic [''outputSelection'', ''*'', ''*''] (Str ''evm.bytecode'')) (\<lambda>basic.
      bind (push_at basic [''outputSelection'', ''*'', ''*''] (Str ''evm.deployedBytecode'')) (\<lambda>basic.
      bind (push_at basic [''outputSelection'', ''*'', ''*''] (Str ''abi'')) (\<lambda>basic.
      Inr basic))))))))))"

text \<open>
  The selection the specification asks for: under the wildcard file key, the six outputs
  of every contract and the two AST forms of the file itself.
\<close>

definition output_selection :: jsv where
  "output_selection =
     Obj [(''*'',
           Obj [(''*'', Arr [Str ''ast'', Str ''legacyAST'', Str ''evm.deployedBytecode.sourceMap'',
                            Str ''evm.bytecode'', Str ''evm.deployedBytecode'', Str ''abi''] []),
                ('''', Arr [Str ''ast'', Str ''legacyAST''] [])])]"

section \<open>The result normalizer\<close>

text \<open>
  What the code prints: \<^verbatim>\<open>console.log\<close> with its arguments, the two lines that report
  an elapsed time (the label only: the time is not modelled), and \<^verbatim>\<open>console.error\<close> of
  a caught exception.
\<close>

datatype console = Log "jsv list" | Timing string | Caught error

record build_result =
  ast :: jsv
  sourcemap :: jsv
  sources :: jsv
  bytecode :: jsv
  runtime_bytecode :: jsv
  abi :: jsv
  invariants :: jsv
  compiler_args :: jsv

text \<open>
  The loop over \<^verbatim>\<open>output?.errors || []\<close>. At the first entry of severity
  \<^verbatim>\<open>error\<close> the code prints the formatted message and then evaluates
  \<^verbatim>\<open>resolve({ success: false, err: err })\<close>. Neither \<^verbatim>\<open>resolve\<close> nor \<^verbatim>\<open>err\<close> is
  in scope in \<^verbatim>\<open>handleBuildResult\<close>: \<^verbatim>\<open>resolve\<close> is a parameter of other functions of
  the module, \<^verbatim>\<open>err\<close> of the callbacks of \<^verbatim>\<open>exec\<close>. The callee is evaluated before
  the arguments, so the call throws a \<^verbatim>\<open>ReferenceError\<close> for \<^verbatim>\<open>resolve\<close>, and the
  \<^verbatim>\<open>return\<close> after it is never reached.
\<close>

fun scan_errors :: "jsv list \<Rightarrow> console list \<times> error option" where
  "scan_errors [] = ([], None)"
| "scan_errors (error # rest) =
     (case get error ''severity'' of
        Inl e \<Rightarrow> ([], Some e)
      | Inr severity \<Rightarrow>
          if severity = Str ''error'' then
            (case get error ''formattedMessage'' of
               Inl e \<Rightarrow> ([], Some e)
             | Inr message \<Rightarrow> ([Log [message]], Some (ReferenceError ''resolve'')))
          else scan_errors rest)"

text \<open>
  \<^verbatim>\<open>Object.entries(compiler_json['sources']).forEach(([fn, contract]) =>
    { output['sources'][fn]['source'] = contract['content']; })\<close>
\<close>

fun merge_sources :: "(string \<times> jsv) list \<Rightarrow> jsv \<Rightarrow> error + jsv" where
  "merge_sources [] output = Inr output"
| "merge_sources ((fn, contract) # rest) output =
     bind (get output ''sources'') (\<lambda>srcs.
     bind (get srcs fn) (\<lambda>entry.
     bind (get contract ''content'') (\<lambda>content.
     bind (set_prop entry ''source'' content) (\<lambda>entry'.
     merge_sources rest (write_back output ''sources'' (write_back srcs fn entry'))))))"

text \<open>\<^verbatim>\<open>let { ast: ast, ast_tree: ast_tree } = await get_ast(output)\<close>\<close>

definition destructure_ast :: "jsv \<Rightarrow> error + jsv \<times> jsv" where
  "destructure_ast r =
     bind (get r ''ast'') (\<lambda>ast. bind (get r ''ast_tree'') (\<lambda>ast_tree. Inr (ast, ast_tree)))"

text \<open>
  The four extractions of the source are the same two loops over a different field of
  \<^verbatim>\<open>contract_info\<close>. The model writes the loops once, over the field read.
\<close>

definition sourcemap_of :: "jsv \<Rightarrow> error + jsv" where
  "sourcemap_of contract_info = get_path contract_info [''evm'', ''deployedBytecode'', ''sourceMap'']"

definition bytecode_of :: "jsv \<Rightarrow> error + jsv" where
  "bytecode_of contract_info = get_path contract_info [''evm'', ''bytecode'', ''object'']"

definition runtime_bytecode_of :: "jsv \<Rightarrow> error + jsv" where
  "runtime_bytecode_of contract_info = get_path contract_info [''evm'', ''deployedBytecode'', ''object'']"

definition abi_of :: "jsv \<Rightarrow> error + jsv" where
  "abi_of contract_info = get_path contract_info [''abi'']"

text \<open>
  With a filter: \<^verbatim>\<open>if (_contract_name === contract_name) { x = contract_info[...] }\<close>
  over the contracts of one file, and over the files. \<open>x\<close> is the value found so far.
\<close>

fun pick :: "(jsv \<Rightarrow> error + jsv) \<Rightarrow> jsv \<Rightarrow> (string \<times> jsv) list \<Rightarrow> jsv \<Rightarrow> error + jsv" where
  "pick field contract_name [] x = Inr x"
| "pick field contract_name ((contract_name', contract_info) # rest) x =
     (if Str contract_name' = contract_name
      then bind (field contract_info) (\<lambda>x'. pick field contract_name rest x')
      else pick field contract_name rest x)"

fun pick_files :: "(jsv \<Rightarrow> error + jsv) \<Rightarrow> jsv \<Rightarrow> (string \<times> jsv) list \<Rightarrow> jsv \<Rightarrow> error + jsv" where
  "pick_files field contract_name [] x = Inr x"
| "pick_files field contract_name ((fn, contract) # rest) x =
     bind (entries contract) (\<lambda>cs.
     bind (pick field contract_name cs x) (\<lambda>x'.
     pick_files field contract_name rest x'))"

text \<open>
  Without a filter the code fills objects of its own: \<^verbatim>\<open>x = {}\<close>, then for every file
  \<^verbatim>\<open>x[fn] = {}\<close> and, for the contracts of the file,
  \<^verbatim>\<open>x[fn][contract_name] = contract_info[...]\<close>.

  An object made by \<^verbatim>\<open>{}\<close> has the prototype \<^verbatim>\<open>Object.prototype\<close>, until an assignment
  to \<^verbatim>\<open>__proto__\<close> replaces it. Such an object is kept here as the pair of its own
  properties and its prototype.
\<close>

datatype prototype =
    Object_prototype   \<comment> \<open>the prototype \<^verbatim>\<open>{}\<close> gives\<close>
  | Replaced jsv       \<comment> \<open>\<^verbatim>\<open>null\<close> or an object, assigned to \<^verbatim>\<open>__proto__\<close>\<close>

type_synonym created = "(string \<times> jsv) list \<times> prototype"

text \<open>
  \<^verbatim>\<open>m[k] = v\<close> on such an object. For every name but \<^verbatim>\<open>__proto__\<close> the assignment
  creates or updates the own property: whatever the prototype chain holds under the name
  is a writable data property. The name \<^verbatim>\<open>__proto__\<close> is an accessor of
  \<^verbatim>\<open>Object.prototype\<close>; the assignment calls its setter, which adds no property. The
  setter makes \<open>v\<close> the prototype of \<open>m\<close> when \<open>v\<close> is an object or \<^verbatim>\<open>null\<close>, and does
  nothing for any other \<open>v\<close>. (The names \<^verbatim>\<open>Object.entries\<close> gives are distinct, so an
  object is assigned the name once, while it has the prototype it was created with.)
\<close>

definition assign :: "created \<Rightarrow> string \<Rightarrow> jsv \<Rightarrow> created" where
  "assign m k v =
     (case m of (own, p) \<Rightarrow>
        if k = ''__proto__'' then
          (case v of
             Null \<Rightarrow> (own, Replaced v)
           | Arr xs ps \<Rightarrow> (own, Replaced v)
           | Obj kvs \<Rightarrow> (own, Replaced v)
           | _ \<Rightarrow> (own, p))
        else (put own k v, p))"

text \<open>
  For the file name \<^verbatim>\<open>__proto__\<close> the assignment \<^verbatim>\<open>x[fn] = {}\<close> makes the new object
  \<open>m\<close> the prototype of \<open>x\<close>, and \<^verbatim>\<open>x[fn]\<close> is read through the prototypes: neither \<open>x\<close>
  nor \<open>m\<close> has an own property of the name, so the lookup goes on to the prototype of
  \<open>m\<close>. Below \<^verbatim>\<open>Object.prototype\<close> it ends at the accessor, whose getter returns the
  prototype of \<open>x\<close>, that is \<open>m\<close> itself: the result \<open>None\<close>. When the prototype of \<open>m\<close> has
  been replaced, the lookup finds the own property \<^verbatim>\<open>__proto__\<close> of the new prototype if
  it has one, reaches the accessor if it is an object without one, and finds nothing,
  which is \<^verbatim>\<open>undefined\<close>, if it is \<^verbatim>\<open>null\<close>.
\<close>

definition inherited :: "created \<Rightarrow> jsv option" where
  "inherited m =
     (case snd m of
        Object_prototype \<Rightarrow> None
      | Replaced v \<Rightarrow>
          (case v of
             Obj kvs \<Rightarrow> map_of kvs ''__proto__''
           | Arr xs ps \<Rightarrow> map_of ps ''__proto__''
           | _ \<Rightarrow> Some Undefined))"

text \<open>
  The inner loop, for the file \<open>fn\<close> and the object \<open>m\<close> that \<^verbatim>\<open>x[fn] = {}\<close> has
  created. The right-hand side is evaluated before the assignment is made. \<^verbatim>\<open>x[fn]\<close>
  is \<open>m\<close>, the own property of \<open>x\<close>, for every file name but \<^verbatim>\<open>__proto__\<close>; for that
  name it is what the lookup above gives: \<open>m\<close> again, or a value \<open>w\<close> of the output
  document. There is such a \<open>w\<close> only when the field of the contract \<^verbatim>\<open>__proto__\<close> of
  that file is \<^verbatim>\<open>null\<close> or an object with a property \<^verbatim>\<open>__proto__\<close> of its own. The
  assignment to a property of \<open>w\<close> is \<open>set_prop\<close>: it throws when \<open>w\<close> is \<^verbatim>\<open>undefined\<close>
  or \<^verbatim>\<open>null\<close>, and it changes at most \<open>w\<close>, which nothing reads afterwards.
\<close>

fun collect :: "(jsv \<Rightarrow> error + jsv) \<Rightarrow> string \<Rightarrow> (string \<times> jsv) list \<Rightarrow> created \<Rightarrow>
    error + created" where
  "collect field fn [] m = Inr m"
| "collect field fn ((contract_name, contract_info) # rest) m =
     bind (field contract_info) (\<lambda>v.
       case (if fn = ''__proto__'' then inherited m else None) of
         None \<Rightarrow> collect field fn rest (assign m contract_name v)
       | Some w \<Rightarrow>
           bind (set_prop w contract_name v) (\<lambda>w'. collect field fn rest m))"

text \<open>
  The outer loop. \<open>x\<close> are the own properties of the object \<^verbatim>\<open>x\<close>. The file name
  \<^verbatim>\<open>__proto__\<close> adds none: the object made for it becomes the prototype of \<^verbatim>\<open>x\<close>. For
  every other file the model fills the inner object first and stores it under \<open>fn\<close> then;
  the two orders give the same object.

  The value returned is the object \<^verbatim>\<open>x\<close> as its own properties show it, the objects
  stored in it likewise: the prototypes are part of the state of the loops above, and no
  part of a value.
\<close>

fun collect_files :: "(jsv \<Rightarrow> error + jsv) \<Rightarrow> (string \<times> jsv) list \<Rightarrow> (string \<times> jsv) list \<Rightarrow>
    error + (string \<times> jsv) list" where
  "collect_files field [] x = Inr x"
| "collect_files field ((fn, contract) # rest) x =
     bind (entries contract) (\<lambda>cs.
     bind (collect field fn cs ([], Object_prototype)) (\<lambda>m.
     collect_files field rest (if fn = ''__proto__'' then x else put x fn (Obj (fst m)))))"

definition extract_field :: "(jsv \<Rightarrow> error + jsv) \<Rightarrow> jsv \<Rightarrow> jsv \<Rightarrow> error + jsv" where
  "extract_field field contract_name output =
     (if truthy contract_name then
        bind (get output ''contracts'') (\<lambda>contracts.
        bind (entries contracts) (\<lambda>files.
        pick_files field contract_name files Null))
      else
        bind (get output ''contracts'') (\<lambda>contracts.
        bind (entries contracts) (\<lambda>files.
        bind (collect_files field files []) (\<lambda>x. Inr (Obj x)))))"

text \<open>
  \<^verbatim>\<open>sources[fn] = { id: contract['id'], source: contract['source'] }\<close>. The result
  stands for what \<^verbatim>\<open>sources[fn]\<close> reads afterwards: for the file name \<^verbatim>\<open>__proto__\<close>
  the record becomes the prototype of \<^verbatim>\<open>sources\<close>, which is what
  \<^verbatim>\<open>sources['__proto__']\<close> reads, and the model keeps it under that name.
\<close>

fun assemble_sources :: "(string \<times> jsv) list \<Rightarrow> (string \<times> jsv) list \<Rightarrow> error + (string \<times> jsv) list" where
  "assemble_sources [] srcs = Inr srcs"
| "assemble_sources ((fn, contract) # rest) srcs =
     bind (get contract ''id'') (\<lambda>i.
     bind (get contract ''source'') (\<lambda>s.
     assemble_sources rest (put srcs fn (Obj [(''id'', i), (''source'', s)]))))"

text \<open>Lines 155 to 247 of the source: the extractions and the object returned.\<close>

definition artifacts :: "jsv \<Rightarrow> jsv \<Rightarrow> jsv \<Rightarrow> jsv \<Rightarrow> jsv \<Rightarrow> jsv \<Rightarrow> error + build_result" where
  "artifacts output compiler_version compiler_json contract_name ast' invariants' =
     bind (extract_field sourcemap_of contract_name output) (\<lambda>sourcemap'.
     bind (extract_field bytecode_of contract_name output) (\<lambda>bytecode'.
     bind (extract_field runtime_bytecode_of contract_name output) (\<lambda>runtime_bytecode'.
     bind (extract_field abi_of contract_name output) (\<lambda>abi'.
     bind (get output ''sources'') (\<lambda>srcs.
     bind (entries srcs) (\<lambda>files.
     bind (assemble_sources files []) (\<lambda>sources'.
     Inr \<lparr>ast = ast', sourcemap = sourcemap', sources = Obj sources', bytecode = bytecode',
          runtime_bytecode = runtime_bytecode', abi = abi', invariants = invariants',
          compiler_args = Obj [(''version'', compiler_version),
                               (''compiler_json'', compiler_json)]\<rparr>)))))))"

text \<open>
  Lines 131 to 141 of the source: the scan of the diagnostics, then the merge of the
  source texts into the output document. The result is what was printed, and the output
  document with the texts merged or the exception thrown.
\<close>

definition merged :: "jsv \<Rightarrow> jsv \<Rightarrow> console list \<times> (error + jsv)" where
  "merged output compiler_json =
     (case bind (optional_get output ''errors'')
             (\<lambda>errors. iterate (if truthy errors then errors else Arr [] [])) of
        Inl e \<Rightarrow> ([], Inl e)
      | Inr errors \<Rightarrow>
     (case scan_errors errors of
        (lines, Some e) \<Rightarrow> (lines, Inl e)
      | (lines, None) \<Rightarrow>
          (lines, bind (get compiler_json ''sources'') (\<lambda>srcs.
                  bind (entries srcs) (\<lambda>files. merge_sources files output)))))"

text \<open>
  \<^verbatim>\<open>handleBuildResult(output, compiler_version, compiler_json, contract_name, starting)\<close>.
  The collaborators \<^verbatim>\<open>get_ast\<close> and \<^verbatim>\<open>get_invariants\<close> of \<^verbatim>\<open>./ast\<close> are parameters: each
  returns a value or throws; they are taken to leave their argument as it is. The call
  of \<^verbatim>\<open>get_ast\<close> stands outside every \<^verbatim>\<open>try\<close>; the call of \<^verbatim>\<open>get_invariants\<close> is inside
  one, whose handler prints the exception. The result is what was printed, and the value
  returned or the exception thrown.
\<close>

definition handleBuildResult ::
  "(jsv \<Rightarrow> error + jsv) \<Rightarrow> (jsv \<Rightarrow> error + jsv) \<Rightarrow> jsv \<Rightarrow> jsv \<Rightarrow> jsv \<Rightarrow> jsv \<Rightarrow>
   console list \<times> (error + build_result)" where
  "handleBuildResult get_ast get_invariants output compiler_version compiler_json contract_name =
     (case merged output compiler_json of
        (lines, Inl e) \<Rightarrow> (lines, Inl e)
      | (lines, Inr output) \<Rightarrow>
     (case bind (get_ast output) destructure_ast of
        Inl e \<Rightarrow> (lines @ [Timing ''Compiling took''], Inl e)
      | Inr (ast', ast_tree) \<Rightarrow>
     (case get_invariants ast_tree of
        Inl e \<Rightarrow>
          (lines @ [Timing ''Compiling took'', Timing ''Analyzing AST took'', Caught e],
           artifacts output compiler_version compiler_json contract_name ast' Null)
      | Inr invariants' \<Rightarrow>
          (lines @ [Timing ''Compiling took'', Timing ''Analyzing AST took''],
           artifacts output compiler_version compiler_json contract_name ast' invariants'))))"

section \<open>The cache key\<close>

subsection \<open>\<^verbatim>\<open>JSON.stringify\<close>\<close>

definition hex_digit :: "nat \<Rightarrow> char" where
  "hex_digit d = ''0123456789abcdef'' ! d"

definition hex_byte :: "8 word \<Rightarrow> string" where
  "hex_byte b = [hex_digit (unat (drop_bit 4 b)), hex_digit (unat (b AND 0xF))]"

text \<open>
  A character inside a string literal: the quote and the backslash are escaped, the
  control characters are written by their short escape or as \<^verbatim>\<open>\u00XX\<close>.
\<close>

definition escape :: "char \<Rightarrow> string" where
  "escape c =
     (if c = CHR 0x22 then [CHR 0x5C, CHR 0x22]
      else if c = CHR 0x5C then [CHR 0x5C, CHR 0x5C]
      else if c = CHR 0x08 then [CHR 0x5C, CHR ''b'']
      else if c = CHR 0x0C then [CHR 0x5C, CHR ''f'']
      else if c = CHR 0x0A then [CHR 0x5C, CHR ''n'']
      else if c = CHR 0x0D then [CHR 0x5C, CHR ''r'']
      else if c = CHR 0x09 then [CHR 0x5C, CHR ''t'']
      else if (of_char c :: nat) < 32 then [CHR 0x5C] @ ''u00'' @ hex_byte (of_char c)
      else [c])"

definition quote :: "string \<Rightarrow> string" where
  "quote s = [CHR 0x22] @ concat (map escape s) @ [CHR 0x22]"

fun join :: "string list \<Rightarrow> string" where
  "join [] = []"
| "join [s] = s"
| "join (s # t # ss) = s @ '','' @ join (t # ss)"

text \<open>
  \<^verbatim>\<open>JSON.stringify(v)\<close> with no replacer and no indentation. \<^verbatim>\<open>undefined\<close> has no text:
  as an array element it is printed as \<^verbatim>\<open>null\<close>, as a property it is left out, and
  \<^verbatim>\<open>JSON.stringify(undefined)\<close> is \<^verbatim>\<open>undefined\<close>. The named properties of an array are
  not printed.
\<close>

fun JSON_stringify :: "jsv \<Rightarrow> string option"
  and stringify_elements :: "jsv list \<Rightarrow> string list"
  and stringify_properties :: "(string \<times> jsv) list \<Rightarrow> string list" where
  "JSON_stringify Undefined = None"
| "JSON_stringify Null = Some ''null''"
| "JSON_stringify (Bool b) = Some (if b then ''true'' else ''false'')"
| "JSON_stringify (Num n) = Some n"
| "JSON_stringify (Str s) = Some (quote s)"
| "JSON_stringify (Arr xs ps) = Some (''['' @ join (stringify_elements xs) @ '']'')"
| "JSON_stringify (Obj kvs) = Some (''{'' @ join (stringify_properties kvs) @ ''}'')"
| "stringify_elements [] = []"
| "stringify_elements (x # xs) =
     (case JSON_stringify x of None \<Rightarrow> ''null'' | Some s \<Rightarrow> s) # stringify_elements xs"
| "stringify_properties [] = []"
| "stringify_properties ((k, v) # kvs) =
     (case JSON_stringify v of
        None \<Rightarrow> stringify_properties kvs
      | Some s \<Rightarrow> (quote k @ '':'' @ s) # stringify_properties kvs)"

subsection \<open>\<^verbatim>\<open>crypto.createHash('md5')\<close>\<close>

text \<open>
  The MD5 digest of RFC 1321, on the bytes of the text, printed as 32 hexadecimal digits
  (\<^verbatim>\<open>digest('hex')\<close>).
\<close>

definition md5_K :: "32 word list" where
  "md5_K =
    [0xd76aa478, 0xe8c7b756, 0x242070db, 0xc1bdceee,
     0xf57c0faf, 0x4787c62a, 0xa8304613, 0xfd469501,
     0x698098d8, 0x8b44f7af, 0xffff5bb1, 0x895cd7be,
     0x6b901122, 0xfd987193, 0xa679438e, 0x49b40821,
     0xf61e2562, 0xc040b340, 0x265e5a51, 0xe9b6c7aa,
     0xd62f105d, 0x02441453, 0xd8a1e681, 0xe7d3fbc8,
     0x21e1cde6, 0xc33707d6, 0xf4d50d87, 0x455a14ed,
     0xa9e3e905, 0xfcefa3f8, 0x676f02d9, 0x8d2a4c8a,
     0xfffa3942, 0x8771f681, 0x6d9d6122, 0xfde5380c,
     0xa4beea44, 0x4bdecfa9, 0xf6bb4b60, 0xbebfbc70,
     0x289b7ec6, 0xeaa127fa, 0xd4ef3085, 0x04881d05,
     0xd9d4d039, 0xe6db99e5, 0x1fa27cf8, 0xc4ac5665,
     0xf4292244, 0x432aff97, 0xab9423a7, 0xfc93a039,
     0x655b59c3, 0x8f0ccc92, 0xffeff47d, 0x85845dd1,
     0x6fa87e4f, 0xfe2ce6e0, 0xa3014314, 0x4e0811a1,
     0xf7537e82, 0xbd3af235, 0x2ad7d2bb, 0xeb86d391]"

definition md5_s :: "nat list" where
  "md5_s =
    [7, 12, 17, 22, 7, 12, 17, 22, 7, 12, 17, 22, 7, 12, 17, 22,
     5, 9, 14, 20, 5, 9, 14, 20, 5, 9, 14, 20, 5, 9, 14, 20,
     4, 11, 16, 23, 4, 11, 16, 23, 4, 11, 16, 23, 4, 11, 16, 23,
     6, 10, 15, 21, 6, 10, 15, 21, 6, 10, 15, 21, 6, 10, 15, 21]"

type_synonym md5_state = "32 word \<times> 32 word \<times> 32 word \<times> 32 word"

definition md5_step :: "32 word list \<Rightarrow> md5_state \<Rightarrow> nat \<Rightarrow> md5_state" where
  "md5_step M st i =
     (case st of (a, b, c, d) \<Rightarrow>
        let (f, g) =
              (if i < 16 then ((b AND c) OR (NOT b AND d), i)
               else if i < 32 then ((d AND b) OR (NOT d AND c), (5 * i + 1) mod 16)
               else if i < 48 then (b XOR c XOR d, (3 * i + 5) mod 16)
               else (c XOR (b OR NOT d), (7 * i) mod 16));
            f' = f + a + md5_K ! i + M ! g
        in (d, b + word_rotl (md5_s ! i) f', b, c))"

definition md5_block :: "md5_state \<Rightarrow> 32 word list \<Rightarrow> md5_state" where
  "md5_block st M =
     (case (st, foldl (md5_step M) st [0..<64]) of
        ((a0, b0, c0, d0), (a, b, c, d)) \<Rightarrow> (a0 + a, b0 + b, c0 + c, d0 + d))"

definition le_bytes :: "nat \<Rightarrow> 'a::len word \<Rightarrow> 8 word list" where
  "le_bytes n w = map (\<lambda>i. ucast (drop_bit (8 * i) w)) [0..<n]"

definition md5_pad :: "8 word list \<Rightarrow> 8 word list" where
  "md5_pad bs =
     bs @ [0x80] @ replicate ((55 + 64 - length bs mod 64) mod 64) 0
        @ le_bytes 8 (of_nat (8 * length bs) :: 64 word)"

fun le_words :: "8 word list \<Rightarrow> 32 word list" where
  "le_words (b0 # b1 # b2 # b3 # bs) =
     (ucast b0 OR push_bit 8 (ucast b1) OR push_bit 16 (ucast b2) OR push_bit 24 (ucast b3))
       # le_words bs"
| "le_words bs = []"

fun blocks :: "32 word list \<Rightarrow> 32 word list list" where
  "blocks [] = []"
| "blocks ws = take 16 ws # blocks (drop 16 ws)"

definition md5 :: "string \<Rightarrow> string" where
  "md5 s =
     (case foldl md5_block (0x67452301, 0xefcdab89, 0x98badcfe, 0x10325476)
             (blocks (le_words (md5_pad (map of_char s)))) of
        (a, b, c, d) \<Rightarrow> concat (map hex_byte (concat (map (le_bytes 4) [a, b, c, d]))))"

text \<open>
  \<^verbatim>\<open>crypto.createHash('md5').update(JSON.stringify(compiler_json)).digest('hex')\<close>:
  \<^verbatim>\<open>update(undefined)\<close> throws a \<^verbatim>\<open>TypeError\<close>.
\<close>

definition contractHash :: "jsv \<Rightarrow> error + string" where
  "contractHash compiler_json =
     (case JSON_stringify compiler_json of None \<Rightarrow> Inl TypeError | Some s \<Rightarrow> Inr (md5 s))"

definition currentFile :: "string \<Rightarrow> string" where
  "currentFile contractHash' = ''.tmp/compile_config_'' @ contractHash' @ ''.json''"

definition outputJson :: "string \<Rightarrow> string" where
  "outputJson contractHash' = ''.tmp/compile_output_'' @ contractHash' @ ''.json''"

section \<open>The pipeline\<close>

text \<open>
  The state \<^verbatim>\<open>work_on_json\<close> acts on: the files and directories of the working
  directory by their paths, what has been printed, and the commands given to
  \<^verbatim>\<open>exec\<close>, in order.
\<close>

datatype node = File string | Dir

text \<open>
  The shell text given to \<^verbatim>\<open>exec\<close>, by what it is made of:
  \<^verbatim>\<open>[pip3 install solc-select &&] solc-select use V --always-install &&
  solc --standard-json < IN > OUT\<close>. A version that was not found is printed as
  \<^verbatim>\<open>undefined\<close>.
\<close>

record command =
  pip_install :: bool
  use_version :: "string option"
  input_file :: string
  output_file :: string

record exec_result =
  failed :: bool
  stdout :: string
  stderr :: string

record world =
  fs :: "string \<rightharpoonup> node"
  printed :: "console list"
  execs :: "command list"

text \<open>
  What the module takes from elsewhere: the collaborators of \<^verbatim>\<open>./ast\<close>,
  \<^verbatim>\<open>JSON.parse\<close>, \<^verbatim>\<open>checkSolcSelectInstalled\<close> of \<^verbatim>\<open>./utils\<close> (its answer), and the
  subprocess: what the command does to the files, and how it ends.
\<close>

record env =
  env_get_ast :: "jsv \<Rightarrow> error + jsv"
  env_get_invariants :: "jsv \<Rightarrow> error + jsv"
  env_parse :: "string \<Rightarrow> error + jsv"
  env_checkSolcSelectInstalled :: bool
  env_exec :: "command \<Rightarrow> (string \<rightharpoonup> node) \<Rightarrow> exec_result \<times> (string \<rightharpoonup> node)"

text \<open>
  The value the promise of \<^verbatim>\<open>work_on_json\<close> is resolved with:
  \<^verbatim>\<open>{ success: false, err: stderr }\<close> or
  \<^verbatim>\<open>{ success: true, remappings: ..., ...result }\<close>.
\<close>

datatype response = Failure string | Success jsv build_result

text \<open>
  The body of \<^verbatim>\<open>work_on_json\<close> is an \<^verbatim>\<open>async\<close> promise executor, and so is the
  callback of \<^verbatim>\<open>exec\<close>: an exception inside them rejects a promise nobody looks at,
  \<^verbatim>\<open>resolve\<close> is never called, and \<^verbatim>\<open>await promise\<close> does not return.
\<close>

datatype outcome = Resolved response | Unsettled error

definition existsSync :: "world \<Rightarrow> string \<Rightarrow> bool" where
  "existsSync w path = (fs w path \<noteq> None)"

definition mkdirSync :: "world \<Rightarrow> string \<Rightarrow> world" where
  "mkdirSync w path = w\<lparr>fs := (fs w)(path \<mapsto> Dir)\<rparr>"

text \<open>The files the code writes lie in \<^verbatim>\<open>.tmp\<close>, which has to be a directory.\<close>

definition writeFileSync :: "world \<Rightarrow> string \<Rightarrow> string \<Rightarrow> error + world" where
  "writeFileSync w path text =
     (if fs w ''.tmp'' = Some Dir then Inr (w\<lparr>fs := (fs w)(path \<mapsto> File text)\<rparr>)
      else Inl (FsError path))"

definition readFileSync :: "world \<Rightarrow> string \<Rightarrow> error + string" where
  "readFileSync w path = (case fs w path of Some (File text) \<Rightarrow> Inr text | _ \<Rightarrow> Inl (FsError path))"

definition print :: "console \<Rightarrow> world \<Rightarrow> world" where
  "print line w = w\<lparr>printed := printed w @ [line]\<rparr>"

text \<open>
  \<^verbatim>\<open>compiler_version.match(/v(\d+\.\d+\.\d+)/)\<close>: the three numbers after the first
  \<^verbatim>\<open>v\<close> that is followed by such a triple. Digits and dots do not overlap, so each
  \<^verbatim>\<open>\d+\<close> takes all the digits there are.
\<close>

definition is_digit :: "char \<Rightarrow> bool" where
  "is_digit c = (c \<in> set ''0123456789'')"

definition version_at :: "string \<Rightarrow> string option" where
  "version_at s =
     (let major = takeWhile is_digit s; s1 = dropWhile is_digit s in
      if major = [] then None else
      (case s1 of
         c1 # s2 \<Rightarrow>
           let minor = takeWhile is_digit s2; s3 = dropWhile is_digit s2 in
           if c1 \<noteq> CHR ''.'' \<or> minor = [] then None else
           (case s3 of
              c2 # s4 \<Rightarrow>
                let patch = takeWhile is_digit s4 in
                if c2 \<noteq> CHR ''.'' \<or> patch = [] then None
                else Some (major @ ''.'' @ minor @ ''.'' @ patch)
            | [] \<Rightarrow> None)
       | [] \<Rightarrow> None))"

fun versionNumber :: "string \<Rightarrow> string option" where
  "versionNumber [] = None"
| "versionNumber (c # s) =
     (if c = CHR ''v'' then (case version_at s of Some v \<Rightarrow> Some v | None \<Rightarrow> versionNumber s)
      else versionNumber s)"

text \<open>
  \<^verbatim>\<open>compiler_json['settings'] = generate_settings((original = compiler_json['settings']))\<close>
  (the assignment to the global \<^verbatim>\<open>original\<close> is not modelled: nothing reads it).
\<close>

definition augment :: "jsv \<Rightarrow> error + jsv" where
  "augment compiler_json =
     bind (get compiler_json ''settings'') (\<lambda>original.
     bind (generate_settings original) (\<lambda>settings.
     set_prop compiler_json ''settings'' settings))"

text \<open>
  The end of all three branches of \<^verbatim>\<open>work_on_json\<close>: read and parse the output file,
  normalize, resolve.
\<close>

definition normalize_output :: "env \<Rightarrow> jsv \<Rightarrow> jsv \<Rightarrow> jsv \<Rightarrow> string \<Rightarrow> world \<Rightarrow> outcome \<times> world" where
  "normalize_output env compiler_version compiler_json contract_name path w =
     (case bind (readFileSync w path) (env_parse env) of
        Inl e \<Rightarrow> (Unsettled e, w)
      | Inr output \<Rightarrow>
     (case handleBuildResult (env_get_ast env) (env_get_invariants env)
             output compiler_version compiler_json contract_name of
        (lines, Inl e) \<Rightarrow> (Unsettled e, w\<lparr>printed := printed w @ lines\<rparr>)
      | (lines, Inr result) \<Rightarrow>
     (case bind (get compiler_json ''settings'') (\<lambda>settings. get settings ''remappings'') of
        Inl e \<Rightarrow> (Unsettled e, w\<lparr>printed := printed w @ lines\<rparr>)
      | Inr remappings \<Rightarrow>
          (Resolved (Success remappings result), w\<lparr>printed := printed w @ lines\<rparr>))))"

text \<open>
  Lines 253 to 263 of the source: the cache directory, the digest, the augmentation of
  the settings and the input file. The result is the digest and the augmented document,
  or the exception thrown, and the state reached.
\<close>

definition cache_entry :: "jsv \<Rightarrow> world \<Rightarrow> (error + string \<times> jsv) \<times> world" where
  "cache_entry compiler_json w =
     (let w = (if \<not> existsSync w ''.tmp'' then mkdirSync w ''.tmp'' else w) in
      case contractHash compiler_json of
        Inl e \<Rightarrow> (Inl e, w)
      | Inr contractHash' \<Rightarrow>
      (case augment compiler_json of
        Inl e \<Rightarrow> (Inl e, w)
      | Inr compiler_json \<Rightarrow>
      (case (if \<not> existsSync w (currentFile contractHash')
             then (case JSON_stringify compiler_json of
                     None \<Rightarrow> Inl TypeError
                   | Some text \<Rightarrow> writeFileSync w (currentFile contractHash') text)
             else Inr w) of
        Inl e \<Rightarrow> (Inl e, w)
      | Inr w \<Rightarrow> (Inr (contractHash', compiler_json), w))))"

text \<open>\<^verbatim>\<open>work_on_json(compiler_version, compiler_json, contract_name)\<close>\<close>

definition work_on_json :: "env \<Rightarrow> jsv \<Rightarrow> jsv \<Rightarrow> jsv \<Rightarrow> world \<Rightarrow> outcome \<times> world" where
  "work_on_json env compiler_version compiler_json contract_name w =
     (case cache_entry compiler_json w of
        (Inl e, w) \<Rightarrow> (Unsettled e, w)
      | (Inr (contractHash', compiler_json), w) \<Rightarrow>
      (case compiler_version of
        Str version \<Rightarrow>
          let w = (case versionNumber version of
                     Some v \<Rightarrow> print (Log [Str ''Found version number'', Str v]) w
                   | None \<Rightarrow> print (Log [Str ''Could not find version number'']) w) in
          if \<not> existsSync w (outputJson contractHash') then
            let cmd = \<lparr>pip_install = \<not> env_checkSolcSelectInstalled env,
                       use_version = versionNumber version,
                       input_file = currentFile contractHash',
                       output_file = outputJson contractHash'\<rparr>;
                (r, files) = env_exec env cmd (fs w);
                w = w\<lparr>fs := files, execs := execs w @ [cmd]\<rparr>
            in if failed r then
                 (Resolved (Failure (stderr r)),
                  print (Log [Str ''Error loading solc'', Str (stderr r)]) w)
               else
                 normalize_output env compiler_version compiler_json contract_name
                   (outputJson contractHash') (print (Log [Str (stdout r)]) w)
          else
            normalize_output env compiler_version compiler_json contract_name
              (outputJson contractHash') w
      | _ \<Rightarrow> (Unsettled TypeError, w)))"

section \<open>Notions used in the statements\<close>

text \<open>A property name that is neither an array index nor \<^verbatim>\<open>length\<close>.\<close>

definition named :: "string \<Rightarrow> bool" where
  "named k \<longleftrightarrow> k \<noteq> ''length'' \<and> \<not> set k \<subseteq> set ''0123456789''"

text \<open>
  The contracts of an output document in the order the loops visit them: file by file,
  and within a file contract by contract.
\<close>

definition entries_of :: "jsv \<Rightarrow> (string \<times> jsv) list" where
  "entries_of v = (case entries v of Inl e \<Rightarrow> [] | Inr kvs \<Rightarrow> kvs)"

definition contract_pairs :: "(string \<times> jsv) list \<Rightarrow> (string \<times> string \<times> jsv) list" where
  "contract_pairs files =
     concat (map (\<lambda>(fn, contract). map (\<lambda>(name, info). (fn, name, info)) (entries_of contract)) files)"

text \<open>The last contract of that name, if there is one.\<close>

definition last_match :: "jsv \<Rightarrow> (string \<times> jsv) list \<Rightarrow> (string \<times> string \<times> jsv) option" where
  "last_match contract_name files =
     (case filter (\<lambda>(fn, name, info). Str name = contract_name) (contract_pairs files) of
        [] \<Rightarrow> None
      | ms \<Rightarrow> Some (last ms))"

text \<open>
  The two-level mapping of a field over all files and contracts: what the extraction
  without a filter is to return. The field is named by its path in the record of a
  contract.
\<close>

definition value_of :: "string list \<Rightarrow> jsv \<Rightarrow> jsv" where
  "value_of path info = (case get_path info path of Inl e \<Rightarrow> Undefined | Inr v \<Rightarrow> v)"

definition full_mapping :: "string list \<Rightarrow> (string \<times> jsv) list \<Rightarrow> jsv" where
  "full_mapping path files =
     Obj (map (\<lambda>(fn, contract).
                (fn, Obj (map (\<lambda>(name, info). (name, value_of path info)) (entries_of contract))))
            files)"

text \<open>The files and contracts of a document that are not named \<^verbatim>\<open>__proto__\<close>.\<close>

definition stored :: "(string \<times> jsv) list \<Rightarrow> (string \<times> jsv) list" where
  "stored kvs = filter (\<lambda>(k, v). k \<noteq> ''__proto__'') kvs"

definition without_proto :: "(string \<times> jsv) list \<Rightarrow> (string \<times> jsv) list" where
  "without_proto files = map (\<lambda>(fn, contract). (fn, Obj (stored (entries_of contract)))) (stored files)"

section \<open>Documents and states of the examples\<close>

text \<open>Two input documents that the augmenter maps to the same document.\<close>

definition input_without_settings :: jsv where
  "input_without_settings = Obj [(''language'', Str ''Solidity''), (''sources'', Obj [])]"

definition input_with_empty_settings :: jsv where
  "input_with_empty_settings =
     Obj [(''language'', Str ''Solidity''), (''sources'', Obj []), (''settings'', Obj [])]"

text \<open>
  An output document that reports a compilation error, its text, and a working directory
  that holds it as the cached output of \<open>input_without_settings\<close>.
\<close>

definition failed_output :: jsv where
  "failed_output =
     Obj [(''errors'', Arr [Obj [(''severity'', Str ''error''),
                                (''formattedMessage'', Str ''ParserError: Expected pragma'')]] [])]"

definition failed_output_text :: string where
  "failed_output_text =
     ''{\"errors\":[{\"severity\":\"error\",\"formattedMessage\":\"ParserError: Expected pragma\"}]}''"

definition cached_world :: world where
  "cached_world =
     \<lparr>fs = [''.tmp'' \<mapsto> Dir,
             ''.tmp/compile_output_766891c1199d5058484142e04f212918.json'' \<mapsto> File failed_output_text],
      printed = [], execs = []\<rparr>"

definition empty_world :: world where
  "empty_world = \<lparr>fs = Map.empty, printed = [], execs = []\<rparr>"

text \<open>
  The output of a compilation of nothing, its text, and a working directory that holds it
  as the cached output of \<open>input_without_settings\<close>.
\<close>

definition empty_output :: jsv where
  "empty_output = Obj [(''contracts'', Obj []), (''sources'', Obj [])]"

definition empty_output_text :: string where
  "empty_output_text = ''{\"contracts\":{},\"sources\":{}}''"

definition compiled_world :: world where
  "compiled_world =
     \<lparr>fs = [''.tmp'' \<mapsto> Dir,
             ''.tmp/compile_output_766891c1199d5058484142e04f212918.json'' \<mapsto> File empty_output_text],
      printed = [], execs = []\<rparr>"

text \<open>
  Collaborators for the examples: an AST analysis and an invariant extraction that return
  empty results, a parser that knows the two texts above, and a compiler run that fails.
\<close>

definition example_env :: env where
  "example_env =
     \<lparr>env_get_ast = (\<lambda>output. Inr (Obj [(''ast'', Obj []), (''ast_tree'', Obj [])])),
      env_get_invariants = (\<lambda>ast_tree. Inr (Arr [] [])),
      env_parse = (\<lambda>text. if text = failed_output_text then Inr failed_output
                           else if text = empty_output_text then Inr empty_output
                           else Inl SyntaxError),
      env_checkSolcSelectInstalled = True,
      env_exec = (\<lambda>cmd files. (\<lparr>failed = True, stdout = [], stderr = ''solc: not found''\<rparr>, files))\<rparr>"

text \<open>
  The example of the specification: an output document with the contracts \<open>Foo\<close> and
  \<open>Bar\<close> of \<open>A.sol\<close> and \<open>Baz\<close> of \<open>B.sol\<close>, and the input document it comes from.
\<close>

definition contract_info :: "string \<Rightarrow> jsv" where
  "contract_info name =
     Obj [(''abi'', Arr [] []),
          (''evm'', Obj [(''bytecode'', Obj [(''object'', Str (''60806040'' @ name))]),
                       (''deployedBytecode'',
                        Obj [(''object'', Str (''6080'' @ name)),
                             (''sourceMap'', Str (''0:15:0:-:0;'' @ name))])])]"

definition example_output :: jsv where
  "example_output =
     Obj [(''contracts'',
           Obj [(''A.sol'', Obj [(''Foo'', contract_info ''Foo''), (''Bar'', contract_info ''Bar'')]),
                (''B.sol'', Obj [(''Baz'', contract_info ''Baz'')])]),
          (''sources'',
           Obj [(''A.sol'', Obj [(''id'', Num ''0''), (''ast'', Obj [])]),
                (''B.sol'', Obj [(''id'', Num ''1''), (''ast'', Obj [])])])]"

definition example_input :: jsv where
  "example_input =
     Obj [(''language'', Str ''Solidity''),
          (''sources'',
           Obj [(''A.sol'', Obj [(''content'', Str ''contract Foo {} contract Bar {}'')]),
                (''B.sol'', Obj [(''content'', Str ''contract Baz {}'')])]),
          (''settings'', Obj [(''remappings'', Arr [] [])])]"

text \<open>
  The output of a compilation of \<^verbatim>\<open>contract Foo { ... } contract __proto__ { ... }\<close>, and
  its input document. \<^verbatim>\<open>__proto__\<close> is an identifier of Solidity, and \<^verbatim>\<open>JSON.parse\<close>
  makes the name an own property of the object it builds.
\<close>

definition compiled :: "string \<Rightarrow> jsv" where
  "compiled name =
     Obj [(''abi'', Arr [Obj [(''type'', Str ''function''), (''name'', Str (''get'' @ name)),
                             (''inputs'', Arr [] []), (''outputs'', Arr [] []),
                             (''stateMutability'', Str ''view'')]] []),
          (''evm'', Obj [(''bytecode'', Obj [(''object'', Str (''60806040'' @ name))]),
                       (''deployedBytecode'',
                        Obj [(''object'', Str (''6080'' @ name)),
                             (''sourceMap'', Str (''0:15:0:-:0;'' @ name))])])]"

definition proto_output :: jsv where
  "proto_output =
     Obj [(''contracts'',
           Obj [(''A.sol'', Obj [(''Foo'', compiled ''Foo''), (''__proto__'', compiled ''__proto__'')])]),
          (''sources'', Obj [(''A.sol'', Obj [(''id'', Num ''0''), (''ast'', Obj [])])])]"

definition proto_input :: jsv where
  "proto_input =
     Obj [(''language'', Str ''Solidity''),
          (''sources'',
           Obj [(''A.sol'', Obj [(''content'', Str ''contract Foo {} contract __proto__ {}'')])]),
          (''settings'', Obj [(''remappings'', Arr [] [])])]"

section \<open>Facts about values\<close>

lemma bind_Inr [simp]: "bind (Inr x) f = f x"
  by (simp add: bind_def)

lemma bind_Inl [simp]: "bind (Inl e) f = Inl e"
  by (simp add: bind_def)

lemma bind_eq_Inr: "bind m f = Inr y \<longleftrightarrow> (\<exists>x. m = Inr x \<and> f x = Inr y)"
  by (cases m) simp_all

lemma bind_Inr_right [simp]: "bind m Inr = m"
  by (cases m) simp_all

lemma map_of_put: "map_of (put kvs k v) = (map_of kvs)(k \<mapsto> v)"
  by (induction kvs) (auto simp: fun_eq_iff)

lemma lookup_put: "lookup (put kvs k v) k' = (if k' = k then v else lookup kvs k')"
  by (simp add: lookup_def map_of_put)

lemma put_put: "put (put kvs k v) k w = put kvs k w"
  by (induction kvs) auto

lemma put_fresh: "k \<notin> fst ` set m \<Longrightarrow> put m k v = m @ [(k, v)]"
  by (induction m) auto

lemma map_fst_put_present: "map_of kvs k = Some v' \<Longrightarrow> map fst (put kvs k v) = map fst kvs"
  by (induction kvs) (auto split: if_splits)

lemma set_prop_lookup_Some:
  "set_prop (lookup kvs k) k' v = Inr e' \<Longrightarrow> map_of kvs k = Some (lookup kvs k)"
  by (auto simp: lookup_def split: option.splits)

lemma show_nat_digits: "set (show_nat n) \<subseteq> set ''0123456789''"
proof (induction n rule: show_nat.induct)
  case (1 n)
  have d: "digit_char m \<in> set ''0123456789''" if "m < 10" for m
  proof -
    from that have "m \<in> {0, 1, 2, 3, 4, 5, 6, 7, 8, 9}" by auto
    then show ?thesis by (auto simp: digit_char_def)
  qed
  show ?case
  proof (cases "n < 10")
    case True
    then show ?thesis using d [of n] by (subst show_nat.simps) simp
  next
    case False
    then show ?thesis using 1 d [of "n mod 10"] by (subst show_nat.simps) simp
  qed
qed

lemma named_not_index: "named k \<Longrightarrow> show_nat i \<noteq> k"
  using show_nat_digits [of i] by (auto simp: named_def)

lemma named_no_index: "named k \<Longrightarrow> map_of (index_entries xs) k = None"
  by (auto simp: index_entries_def map_of_zip_is_None dest: named_not_index)

lemma named_no_find: "named k \<Longrightarrow> List.find (\<lambda>i. show_nat i = k) ns = None"
  by (auto simp: find_None_iff dest: named_not_index)

lemma get_Arr_named: "named k \<Longrightarrow> get (Arr xs ps) k = Inr (lookup ps k)"
  by (simp add: named_no_index) (simp add: named_def)

lemma write_back_Arr_named: "named k \<Longrightarrow> write_back (Arr xs ps) k c = Arr xs (put ps k c)"
  by (simp add: named_no_find) (simp add: named_def)

lemma named_outputSelection: "named ''outputSelection''"
  by (simp add: named_def)

lemma named_sources: "named ''sources''"
  by (simp add: named_def)

lemma named_contracts: "named ''contracts''"
  by (simp add: named_def)

lemma get_write_back_other:
  assumes "named k" "named k'" "k' \<noteq> k"
  shows "get (write_back a k c) k' = get a k'"
proof (cases a)
  case (Arr xs ps)
  then show ?thesis
    using assms
    by (simp add: write_back_Arr_named get_Arr_named lookup_put del: get.simps write_back.simps)
qed (simp_all add: lookup_put assms)

section \<open>Properties of the settings augmenter\<close>

lemma push_at_Obj:
  "push_at (Obj (put kvs k b)) (k # ks) v = bind (push_at b ks v) (\<lambda>b'. Inr (Obj (put kvs k b')))"
  by (simp add: lookup_put put_put)

lemma push_at_Arr:
  "named k \<Longrightarrow> push_at (Arr xs (put ps k b)) (k # ks) v = bind (push_at b ks v) (\<lambda>b'. Inr (Arr xs (put ps k b')))"
  by (simp add: get_Arr_named write_back_Arr_named lookup_put put_put del: get.simps write_back.simps)

lemma push_any:
  "push_at (Obj [(''*'', Obj [(''*'', Arr xs []), ('''', Arr ys [])])]) [''*'', ''*''] v =
     Inr (Obj [(''*'', Obj [(''*'', Arr (xs @ [v]) []), ('''', Arr ys [])])])"
  by (simp add: lookup_def)

lemma push_whole:
  "push_at (Obj [(''*'', Obj [(''*'', Arr xs []), ('''', Arr ys [])])]) [''*'', ''''] v =
     Inr (Obj [(''*'', Obj [(''*'', Arr xs []), ('''', Arr (ys @ [v]) [])])])"
  by (simp add: lookup_def)

lemmas gs_simps = generate_settings_def Let_def bind_Inr set_prop.simps push_any push_whole
  append_Nil append_Cons output_selection_def jsv.simps if_True if_False refl simp_thms

lemma generate_settings_Obj:
  "generate_settings (Obj kvs) = Inr (Obj (put kvs ''outputSelection'' output_selection))"
  by (simp only: gs_simps push_at_Obj)

lemma generate_settings_Undefined:
  "generate_settings Undefined = Inr (Obj [(''outputSelection'', output_selection)])"
proof -
  have "generate_settings Undefined = generate_settings (Obj [])"
    by (simp only: generate_settings_def Let_def refl if_True if_False jsv.simps)
  then show ?thesis
    by (simp only: generate_settings_Obj put.simps)
qed

lemma generate_settings_Arr:
  "generate_settings (Arr xs ps) = Inr (Arr xs (put ps ''outputSelection'' output_selection))"
  by (simp only: gs_simps push_at_Arr [OF named_outputSelection])

lemma generate_settings_fails:
  "original = Null \<or> original = Bool b \<or> original = Num n \<or> original = Str s \<Longrightarrow> generate_settings original = Inl TypeError"
  by (auto simp: generate_settings_def named_no_index [OF named_outputSelection])

lemma generate_settings_cases:
  assumes "generate_settings original = Inr basic"
  obtains "original = Undefined" "basic = Obj [(''outputSelection'', output_selection)]"
  | kvs where "original = Obj kvs" "basic = Obj (put kvs ''outputSelection'' output_selection)"
  | xs ps where "original = Arr xs ps" "basic = Arr xs (put ps ''outputSelection'' output_selection)"
  using assms
  by (cases original)
     (simp_all add: generate_settings_Obj generate_settings_Arr generate_settings_Undefined
        generate_settings_fails)

text \<open>
  Claim C5. For a settings object, or none, \<^verbatim>\<open>generate_settings\<close> returns a settings
  object whose \<^verbatim>\<open>outputSelection\<close> asks, under the wildcard file key, for \<^verbatim>\<open>ast\<close>,
  \<^verbatim>\<open>legacyAST\<close>, \<^verbatim>\<open>evm.deployedBytecode.sourceMap\<close>, \<^verbatim>\<open>evm.bytecode\<close>,
  \<^verbatim>\<open>evm.deployedBytecode\<close> and \<^verbatim>\<open>abi\<close> of every contract and for \<^verbatim>\<open>ast\<close> and
  \<^verbatim>\<open>legacyAST\<close> under the empty contract key, and every other key of the caller keeps
  its value.
\<close>

theorem generate_settings_selection:
  assumes "original = Undefined \<or> original = Obj kvs"
  shows "\<exists>basic. generate_settings original = Inr basic
           \<and> get basic ''outputSelection'' = Inr output_selection
           \<and> (\<forall>k. k \<noteq> ''outputSelection'' \<longrightarrow>
                 get basic k = (if original = Undefined then Inr Undefined else get original k))"
proof (cases "original = Undefined")
  case True
  then show ?thesis
    by (simp add: generate_settings_Undefined lookup_def)
next
  case False
  with assms have "original = Obj kvs" by simp
  then show ?thesis
    by (simp add: generate_settings_Obj lookup_put)
qed

text \<open>The same for a settings object that holds remappings only.\<close>

theorem generate_settings_selection_witness:
  "\<exists>basic. generate_settings (Obj [(''remappings'', Arr [Str ''@oz/=lib/oz/''] [])]) = Inr basic
     \<and> get basic ''outputSelection'' = Inr output_selection
     \<and> get basic ''remappings'' = Inr (Arr [Str ''@oz/=lib/oz/''] [])"
  using generate_settings_selection
    [of "Obj [(''remappings'', Arr [Str ''@oz/=lib/oz/''] [])]" "[(''remappings'', Arr [Str ''@oz/=lib/oz/''] [])]"]
  by (auto simp: lookup_def)

text \<open>
  Claim C6. The augmenter is idempotent: applied to its own result it returns that result
  again, so the \<^verbatim>\<open>outputSelection\<close> after two applications is the one after a single
  application, and no selector occurs twice in either list.
\<close>

theorem generate_settings_idempotent:
  assumes "generate_settings original = Inr basic"
  shows "generate_settings basic = Inr basic
     \<and> (\<exists>any whole. get basic ''outputSelection'' =
            Inr (Obj [(''*'', Obj [(''*'', Arr any []), ('''', Arr whole [])])])
          \<and> distinct any \<and> distinct whole)"
proof -
  have sel: "\<exists>any whole. output_selection = Obj [(''*'', Obj [(''*'', Arr any []), ('''', Arr whole [])])]
      \<and> distinct any \<and> distinct whole"
    by (simp add: output_selection_def)
  from assms show ?thesis
  proof (rule generate_settings_cases)
    assume "basic = Obj [(''outputSelection'', output_selection)]"
    then show ?thesis
      using sel by (simp add: generate_settings_Obj lookup_def)
  next
    fix kvs
    assume "basic = Obj (put kvs ''outputSelection'' output_selection)"
    then show ?thesis
      using sel by (simp add: generate_settings_Obj put_put lookup_put)
  next
    fix xs ps
    assume "basic = Arr xs (put ps ''outputSelection'' output_selection)"
    then show ?thesis
      using sel
      by (simp add: generate_settings_Arr put_put lookup_put get_Arr_named [OF named_outputSelection]
            del: get.simps)
  qed
qed

text \<open>The same for the settings the augmenter makes out of nothing.\<close>

theorem generate_settings_idempotent_witness:
  "generate_settings Undefined = Inr (Obj [(''outputSelection'', output_selection)])
     \<and> generate_settings (Obj [(''outputSelection'', output_selection)])
         = Inr (Obj [(''outputSelection'', output_selection)])"
  using generate_settings_idempotent [OF generate_settings_Undefined]
  by (simp add: generate_settings_Undefined)

section \<open>Properties of the result normalizer\<close>

subsection \<open>The shape of a run\<close>

lemma scan_errors_printed: "scan_errors errors = (lines, None) \<Longrightarrow> lines = []"
  by (induction errors) (auto split: sum.splits if_splits)

lemma merged_printed: "merged output compiler_json = (lines, Inr output') \<Longrightarrow> lines = []"
  by (auto simp: merged_def split: sum.splits prod.splits option.splits dest: scan_errors_printed)

lemma artifacts_invariants:
  "artifacts output cv cj name a iv = Inr r \<Longrightarrow>
   artifacts output cv cj name a iv' = Inr (r\<lparr>invariants := iv'\<rparr>)"
  by (auto simp: artifacts_def bind_eq_Inr)

lemma handleBuildResult_InrE:
  assumes "handleBuildResult get_ast get_invariants output cv cj name = (lines, Inr result)"
  obtains output' ast' ast_tree iv where
    "merged output cj = ([], Inr output')"
    "bind (get_ast output') destructure_ast = Inr (ast', ast_tree)"
    "artifacts output' cv cj name ast' iv = Inr result"
proof -
  obtain printed' r where m: "merged output cj = (printed', r)"
    by (cases "merged output cj")
  with assms obtain output' where r: "r = Inr output'"
    by (cases r) (simp_all add: handleBuildResult_def)
  with m have p: "printed' = []"
    by (simp add: merged_printed)
  from assms m r obtain ast' ast_tree where
    a: "bind (get_ast output') destructure_ast = Inr (ast', ast_tree)"
    by (cases "bind (get_ast output') destructure_ast") (auto simp: handleBuildResult_def)
  from assms m r a obtain iv where
    "artifacts output' cv cj name ast' iv = Inr result"
    by (cases "get_invariants ast_tree") (auto simp: handleBuildResult_def)
  with m r p a show thesis
    by (auto intro: that)
qed

lemma handleBuildResult_analysed:
  assumes "merged out cj = ([], Inr out')"
    and "bind (get_ast out') destructure_ast = Inr (a, t)"
  shows "handleBuildResult get_ast get_invariants out cv cj name =
           (case get_invariants t of
              Inl e \<Rightarrow> ([Timing ''Compiling took'', Timing ''Analyzing AST took'', Caught e],
                        artifacts out' cv cj name a Null)
            | Inr v \<Rightarrow> ([Timing ''Compiling took'', Timing ''Analyzing AST took''],
                        artifacts out' cv cj name a v))"
  using assms by (simp add: handleBuildResult_def split: sum.splits)

lemma artifacts_InrE:
  assumes "artifacts output cv cj name a iv = Inr r"
  obtains srcs files ss where
    "extract_field sourcemap_of name output = Inr (sourcemap r)"
    "extract_field bytecode_of name output = Inr (bytecode r)"
    "extract_field runtime_bytecode_of name output = Inr (runtime_bytecode r)"
    "extract_field abi_of name output = Inr (abi r)"
    "get output ''sources'' = Inr srcs" "entries srcs = Inr files"
    "assemble_sources files [] = Inr ss" "sources r = Obj ss"
  using assms by (auto simp: artifacts_def bind_eq_Inr)

subsection \<open>The example of the specification, normalized\<close>

lemmas normalize_simps =
  handleBuildResult_def merged_def optional_get_def lookup_def artifacts_def extract_field_def
  destructure_ast_def sourcemap_of_def bytecode_of_def runtime_bytecode_of_def abi_of_def
  assign_def inherited_def example_output_def example_input_def contract_info_def example_env_def

lemma example_all:
  "\<exists>r. handleBuildResult (env_get_ast example_env) (env_get_invariants example_env)
          example_output (Str ''v0.8.20'') example_input Undefined
        = ([Timing ''Compiling took'', Timing ''Analyzing AST took''], Inr r)"
  by (simp add: normalize_simps)

lemma example_Baz:
  "\<exists>r. handleBuildResult (env_get_ast example_env) (env_get_invariants example_env)
          example_output (Str ''v0.8.20'') example_input (Str ''Baz'')
        = ([Timing ''Compiling took'', Timing ''Analyzing AST took''], Inr r)"
  by (simp add: normalize_simps)

lemma example_contracts:
  "get example_output ''contracts'' =
     Inr (Obj [(''A.sol'', Obj [(''Foo'', contract_info ''Foo''), (''Bar'', contract_info ''Bar'')]),
               (''B.sol'', Obj [(''Baz'', contract_info ''Baz'')])])"
  by (simp add: example_output_def lookup_def)

lemma example_pairs:
  "contract_pairs [(''A.sol'', Obj [(''Foo'', contract_info ''Foo''), (''Bar'', contract_info ''Bar'')]),
                   (''B.sol'', Obj [(''Baz'', contract_info ''Baz'')])]
     = [(''A.sol'', ''Foo'', contract_info ''Foo''), (''A.sol'', ''Bar'', contract_info ''Bar''),
        (''B.sol'', ''Baz'', contract_info ''Baz'')]"
  by (simp add: contract_pairs_def entries_of_def)

subsection \<open>Diagnostics\<close>

text \<open>
  Claim C1. An output document whose \<^verbatim>\<open>errors\<close> hold an entry of severity \<^verbatim>\<open>error\<close>
  is to make the normalization fail at once, before any artifact is extracted, with the
  formatted text of that entry as the payload of the failure.

  The code does stop at the entry, whatever the collaborators, the version, the input
  document and the filter are, and it prints the formatted text. What it throws, though,
  is the \<^verbatim>\<open>ReferenceError\<close> of its call of \<^verbatim>\<open>resolve\<close>: the text is not the payload.
\<close>

theorem diagnostic_payload_is_reference_error:
  "handleBuildResult get_ast get_invariants
     (Obj [(''errors'', Arr [Obj [(''severity'', Str ''error''),
                                (''formattedMessage'', Str ''ParserError: Expected pragma'')]] [])])
     compiler_version compiler_json contract_name
   = ([Log [Str ''ParserError: Expected pragma'']], Inl (ReferenceError ''resolve''))"
  by (simp add: handleBuildResult_def merged_def optional_get_def lookup_def)

text \<open>
  The rest of the claim holds: entries of another severity let the scan pass, having
  printed nothing, and the scan stops at the first entry of severity \<^verbatim>\<open>error\<close> of any
  list, with that \<^verbatim>\<open>ReferenceError\<close>.
\<close>

lemma warnings_pass:
  "\<forall>e \<in> set errors. \<exists>kvs. e = Obj kvs \<and> lookup kvs ''severity'' \<noteq> Str ''error'' \<Longrightarrow>
   scan_errors errors = ([], None)"
  by (induction errors) auto

lemma errors_stop_the_scan:
  "\<forall>e \<in> set before. \<exists>kvs. e = Obj kvs \<and> lookup kvs ''severity'' \<noteq> Str ''error'' \<Longrightarrow>
   lookup kvs ''severity'' = Str ''error'' \<Longrightarrow>
   scan_errors (before @ Obj kvs # rest)
     = ([Log [lookup kvs ''formattedMessage'']], Some (ReferenceError ''resolve''))"
  by (induction before) auto

subsection \<open>A failing AST analysis\<close>

text \<open>
  Claim C3, as the code has it. The call of \<^verbatim>\<open>get_ast\<close> is not guarded: when the scan of
  the diagnostics and the merge of the sources have passed and \<^verbatim>\<open>get_ast\<close> throws on
  the merged document, \<^verbatim>\<open>handleBuildResult\<close> throws that exception, having printed the
  compile time only. No AST and no \<^verbatim>\<open>BuildResult\<close> is returned, and the invariant
  extraction is not called: the result is the same for every \<^verbatim>\<open>get_invariants\<close>.
\<close>

theorem get_ast_failure_is_fatal:
  assumes "merged output compiler_json = (lines, Inr output')"
    and "get_ast output' = Inl e"
  shows "handleBuildResult get_ast get_invariants output compiler_version compiler_json contract_name
           = ([Timing ''Compiling took''], Inl e)"
  using assms merged_printed [OF assms(1)]
  by (simp add: handleBuildResult_def)

text \<open>The same for an output document without contracts and an analysis that throws.\<close>

theorem get_ast_failure_is_fatal_witness:
  "merged (Obj [(''contracts'', Obj []), (''sources'', Obj [])]) (Obj [(''sources'', Obj [])])
      = ([], Inr (Obj [(''contracts'', Obj []), (''sources'', Obj [])]))
   \<and> handleBuildResult (\<lambda>output. Inl TypeError) (\<lambda>ast_tree. Inr Null)
        (Obj [(''contracts'', Obj []), (''sources'', Obj [])]) (Str ''v0.8.20'')
        (Obj [(''sources'', Obj [])]) Undefined
      = ([Timing ''Compiling took''], Inl TypeError)"
proof -
  have m: "merged (Obj [(''contracts'', Obj []), (''sources'', Obj [])]) (Obj [(''sources'', Obj [])])
      = ([], Inr (Obj [(''contracts'', Obj []), (''sources'', Obj [])]))"
    by (simp add: merged_def optional_get_def lookup_def)
  show ?thesis
    using m get_ast_failure_is_fatal [OF m, of "\<lambda>output. Inl TypeError" TypeError]
    by simp
qed

text \<open>
  Claim C3 as it is written asks for a successful build with a null \<^verbatim>\<open>invariants\<close> field
  when \<^verbatim>\<open>get_ast\<close> throws. On this document the build fails with what \<^verbatim>\<open>get_ast\<close>
  threw.
\<close>

theorem get_ast_failure_counterexample:
  "handleBuildResult (\<lambda>output. Inl (Thrown (Str ''no AST''))) (\<lambda>ast_tree. Inr Null)
     (Obj [(''contracts'', Obj []), (''sources'', Obj [])])
     (Str ''v0.8.20'') (Obj [(''language'', Str ''Solidity''), (''sources'', Obj [])]) Undefined
   = ([Timing ''Compiling took''], Inl (Thrown (Str ''no AST'')))"
  by (simp add: handleBuildResult_def merged_def optional_get_def lookup_def)

subsection \<open>A failing invariant extraction\<close>

text \<open>
  Claim C4. When the normalization of a document succeeds and the invariant extraction is
  replaced by one that throws, the normalization still succeeds: the exception is caught
  and printed, the \<^verbatim>\<open>invariants\<close> field is \<^verbatim>\<open>null\<close>, and every other field of the
  result is what it was.
\<close>

theorem invariant_failure_degrades:
  assumes "handleBuildResult get_ast get_invariants output compiler_version compiler_json contract_name
             = (lines, Inr result)"
    and "\<And>ast_tree. throwing ast_tree = Inl e"
  shows "handleBuildResult get_ast throwing output compiler_version compiler_json contract_name
           = ([Timing ''Compiling took'', Timing ''Analyzing AST took'', Caught e],
              Inr (result\<lparr>invariants := Null\<rparr>))"
proof -
  obtain printed' r where m: "merged output compiler_json = (printed', r)"
    by (cases "merged output compiler_json")
  with assms(1) obtain output' where r: "r = Inr output'"
    by (cases r) (simp_all add: handleBuildResult_def)
  with m have p: "printed' = []"
    by (simp add: merged_printed)
  from assms(1) m r obtain ast' ast_tree where
    a: "bind (get_ast output') destructure_ast = Inr (ast', ast_tree)"
    by (cases "bind (get_ast output') destructure_ast") (auto simp: handleBuildResult_def)
  from assms(1) m r a obtain iv where
    "artifacts output' compiler_version compiler_json contract_name ast' iv = Inr result"
    by (cases "get_invariants ast_tree") (auto simp: handleBuildResult_def)
  then have "artifacts output' compiler_version compiler_json contract_name ast' Null
      = Inr (result\<lparr>invariants := Null\<rparr>)"
    by (rule artifacts_invariants)
  with m r p a assms(2) show ?thesis
    by (simp add: handleBuildResult_def)
qed

text \<open>The same on the example of the specification.\<close>

theorem invariant_failure_degrades_witness:
  "\<exists>lines result.
     handleBuildResult (env_get_ast example_env) (env_get_invariants example_env)
       example_output (Str ''v0.8.20'') example_input Undefined = (lines, Inr result)
     \<and> handleBuildResult (env_get_ast example_env) (\<lambda>ast_tree. Inl (Thrown (Str ''no invariants'')))
         example_output (Str ''v0.8.20'') example_input Undefined
       = ([Timing ''Compiling took'', Timing ''Analyzing AST took'',
           Caught (Thrown (Str ''no invariants''))],
          Inr (result\<lparr>invariants := Null\<rparr>))"
proof -
  from example_all obtain r where
    r: "handleBuildResult (env_get_ast example_env) (env_get_invariants example_env)
          example_output (Str ''v0.8.20'') example_input Undefined
        = ([Timing ''Compiling took'', Timing ''Analyzing AST took''], Inr r)"
    by blast
  from invariant_failure_degrades
         [OF r, of "\<lambda>ast_tree. Inl (Thrown (Str ''no invariants''))" "Thrown (Str ''no invariants'')"]
       r
  show ?thesis by blast
qed

subsection \<open>The merge leaves the other properties alone\<close>

lemma merge_sources_get:
  "merge_sources files out = Inr out' \<Longrightarrow> named k \<Longrightarrow> k \<noteq> ''sources'' \<Longrightarrow>
   get out' k = get out k"
proof (induction files arbitrary: out)
  case Nil
  then show ?case by simp
next
  case (Cons f files)
  obtain fn contract where f: "f = (fn, contract)" by (cases f)
  from Cons.prems(1) f obtain srcs entry' where
    "merge_sources files (write_back out ''sources'' (write_back srcs fn entry')) = Inr out'"
    by (auto simp: bind_eq_Inr)
  then have "get out' k = get (write_back out ''sources'' (write_back srcs fn entry')) k"
    using Cons.prems(2,3) by (rule Cons.IH)
  then show ?case
    using Cons.prems(2,3) by (simp add: get_write_back_other named_sources)
qed

lemma merged_get:
  assumes "merged output cj = (lines, Inr output')" "named k" "k \<noteq> ''sources''"
  shows "get output' k = get output k"
  using assms
  by (auto simp: merged_def bind_eq_Inr split: sum.splits prod.splits option.splits
        dest: merge_sources_get)

subsection \<open>The extraction with a filter\<close>

lemma pick_Inr:
  "pick field name cs x = Inr y \<Longrightarrow>
   (case filter (\<lambda>(n, info). Str n = name) cs of
      [] \<Rightarrow> y = x
    | ms \<Rightarrow> field (snd (last ms)) = Inr y)"
proof (induction cs arbitrary: x)
  case Nil
  then show ?case by simp
next
  case (Cons c cs)
  obtain n info where c: "c = (n, info)" by (cases c)
  show ?case
  proof (cases "Str n = name")
    case True
    with Cons.prems c obtain x' where x': "field info = Inr x'" "pick field name cs x' = Inr y"
      by (auto simp: bind_eq_Inr)
    from Cons.IH [OF x'(2)] x'(1) True c show ?thesis
      by (auto split: list.splits)
  next
    case False
    with Cons.prems c have "pick field name cs x = Inr y" by simp
    from Cons.IH [OF this] False c show ?thesis by simp
  qed
qed

lemma pick_no_match:
  "\<forall>(n, info) \<in> set cs. Str n \<noteq> name \<Longrightarrow> pick field name cs x = Inr x"
  by (induction cs) auto

lemma contract_pairs_Cons:
  "entries contract = Inr cs \<Longrightarrow>
   contract_pairs ((fn, contract) # files) = map (\<lambda>(n, info). (fn, n, info)) cs @ contract_pairs files"
  by (simp add: contract_pairs_def entries_of_def)

lemma filter_pairs:
  "filter (\<lambda>(fn, n, info). Str n = name) (map (Pair fn) cs)
     = map (Pair fn) (filter (\<lambda>(n, info). Str n = name) cs)"
  by (induction cs) auto

lemma last_match_alt:
  "last_match name files =
     (let ms = filter (\<lambda>(fn, n, info). Str n = name) (contract_pairs files)
      in if ms = [] then None else Some (last ms))"
  by (simp add: last_match_def split: list.splits)

lemma pick_files_Inr:
  "pick_files field name files x = Inr y \<Longrightarrow>
   (case last_match name files of
      None \<Rightarrow> y = x
    | Some (fn, n, info) \<Rightarrow> field info = Inr y)"
proof (induction files arbitrary: x)
  case Nil
  then show ?case by (simp add: last_match_def contract_pairs_def)
next
  case (Cons f files)
  obtain fn contract where f: "f = (fn, contract)" by (cases f)
  from Cons.prems f obtain cs x' where
    cs: "entries contract = Inr cs" and x': "pick field name cs x = Inr x'"
    and rest: "pick_files field name files x' = Inr y"
    by (auto simp: bind_eq_Inr)
  let ?P = "\<lambda>(fn, n, info). Str n = name"
  let ?here = "filter (\<lambda>(n, info). Str n = name) cs"
  let ?later = "filter ?P (contract_pairs files)"
  have all: "filter ?P (contract_pairs (f # files)) = map (Pair fn) ?here @ ?later"
    using f cs by (simp add: contract_pairs_Cons filter_pairs)
  show ?case
  proof (cases "?later = []")
    case False
    then have "last_match name (f # files) = last_match name files"
      by (simp add: last_match_alt all)
    with Cons.IH [OF rest] False show ?thesis
      by (simp add: last_match_alt)
  next
    case True
    with Cons.IH [OF rest] have y: "y = x'"
      by (simp add: last_match_alt)
    show ?thesis
    proof (cases "?here = []")
      case True
      with \<open>?later = []\<close> pick_Inr [OF x'] y show ?thesis
        by (simp add: last_match_alt all)
    next
      case False
      then obtain n info where l: "last ?here = (n, info)"
        by (cases "last ?here")
      with False pick_Inr [OF x'] have "field info = Inr x'"
        by (auto split: list.splits)
      moreover from False l \<open>?later = []\<close>
      have "last_match name (f # files) = Some (fn, n, info)"
        by (simp add: last_match_alt all last_map)
      ultimately show ?thesis
        using y by simp
    qed
  qed
qed

lemma extract_field_filter:
  assumes "extract_field field name output = Inr y" "truthy name"
    and "get output ''contracts'' = Inr contracts" "entries contracts = Inr files"
  shows "case last_match name files of
           None \<Rightarrow> y = Null
         | Some (fn, n, info) \<Rightarrow> field info = Inr y"
  using assms pick_files_Inr [of field name files Null y]
  by (simp add: extract_field_def)

text \<open>
  The extraction with a filter, for every run that returns a result: each of the four
  results is the field of the last contract of that name, in the order of the files and
  of the contracts within a file, and \<^verbatim>\<open>null\<close> when no contract has the name.
\<close>

lemma extraction_with_filter:
  assumes "handleBuildResult get_ast get_invariants output compiler_version compiler_json contract_name
             = (lines, Inr r)"
    and "truthy contract_name"
    and "get output ''contracts'' = Inr contracts"
    and "entries contracts = Inr files"
  shows "case last_match contract_name files of
           None \<Rightarrow>
             sourcemap r = Null \<and> bytecode r = Null \<and> runtime_bytecode r = Null \<and> abi r = Null
         | Some (fn, name, info) \<Rightarrow>
             get_path info [''evm'', ''deployedBytecode'', ''sourceMap''] = Inr (sourcemap r)
             \<and> get_path info [''evm'', ''bytecode'', ''object''] = Inr (bytecode r)
             \<and> get_path info [''evm'', ''deployedBytecode'', ''object''] = Inr (runtime_bytecode r)
             \<and> get_path info [''abi''] = Inr (abi r)"
proof -
  from assms(1) obtain output' ast' ast_tree iv where
    m: "merged output compiler_json = ([], Inr output')"
    and a: "artifacts output' compiler_version compiler_json contract_name ast' iv = Inr r"
    by (rule handleBuildResult_InrE)
  from a have x:
    "extract_field sourcemap_of contract_name output' = Inr (sourcemap r)"
    "extract_field bytecode_of contract_name output' = Inr (bytecode r)"
    "extract_field runtime_bytecode_of contract_name output' = Inr (runtime_bytecode r)"
    "extract_field abi_of contract_name output' = Inr (abi r)"
    by (auto elim: artifacts_InrE)
  from m assms(3) have c: "get output' ''contracts'' = Inr contracts"
    by (simp add: merged_get named_contracts)
  from x [THEN extract_field_filter, OF assms(2) c assms(4)] show ?thesis
    by (auto simp: sourcemap_of_def bytecode_of_def runtime_bytecode_of_def abi_of_def
          split: option.splits)
qed

subsection \<open>The extraction without a filter\<close>

lemma fst_assign:
  "fst (assign m k v) = (if k = ''__proto__'' then fst m else put (fst m) k v)"
  by (cases m; cases v) (simp_all add: assign_def)

lemma stored_Cons:
  "stored ((k, v) # kvs) = (if k = ''__proto__'' then stored kvs else (k, v) # stored kvs)"
  by (simp add: stored_def)

lemma stored_Nil: "stored [] = []"
  by (simp add: stored_def)

lemma stored_subset: "set (stored kvs) \<subseteq> set kvs"
  by (auto simp: stored_def)

lemma stored_none: "''__proto__'' \<notin> fst ` set kvs \<Longrightarrow> stored kvs = kvs"
  by (induction kvs) (auto simp: stored_def)

lemma collect_reads:
  "collect field fn cs m = Inr m' \<Longrightarrow> (n, info) \<in> set cs \<Longrightarrow> \<exists>v. field info = Inr v"
proof (induction cs arbitrary: m)
  case Nil
  then show ?case by simp
next
  case (Cons c cs)
  obtain n' info' where c: "c = (n', info')" by (cases c)
  from Cons.prems(1) c obtain v where
    v: "field info' = Inr v"
    and "collect field fn cs m = Inr m' \<or> collect field fn cs (assign m n' v) = Inr m'"
    by (auto simp: bind_eq_Inr split: option.splits if_splits)
  then obtain m2 where rest: "collect field fn cs m2 = Inr m'"
    by blast
  show ?case
  proof (cases "(n, info) = c")
    case True
    with c v show ?thesis by auto
  next
    case False
    with Cons.prems(2) have "(n, info) \<in> set cs" by simp
    with Cons.IH [OF rest] show ?thesis .
  qed
qed

lemma collect_own:
  "collect field fn cs m = Inr m' \<Longrightarrow> fn \<noteq> ''__proto__'' \<Longrightarrow> distinct (map fst cs) \<Longrightarrow>
   fst ` set cs \<inter> fst ` set (fst m) = {} \<Longrightarrow>
   fst m' = fst m @ map (\<lambda>(n, info). (n, projr (field info))) (stored cs)"
proof (induction cs arbitrary: m)
  case Nil
  then show ?case by (simp add: stored_Nil)
next
  case (Cons c cs)
  obtain n info where c: "c = (n, info)" by (cases c)
  from Cons.prems(1,2) c obtain v where
    v: "field info = Inr v" and rest: "collect field fn cs (assign m n v) = Inr m'"
    by (auto simp: bind_eq_Inr)
  show ?case
  proof (cases "n = ''__proto__''")
    case True
    then have same: "fst (assign m n v) = fst m"
      by (simp add: fst_assign)
    from Cons.prems(4) have "fst ` set cs \<inter> fst ` set (fst m) = {}"
      by auto
    with Cons.IH [OF rest Cons.prems(2)] Cons.prems(3) same
    have "fst m' = fst m @ map (\<lambda>(n, info). (n, projr (field info))) (stored cs)"
      by simp
    with True c show ?thesis
      by (simp add: stored_Cons)
  next
    case False
    from Cons.prems(4) c have "n \<notin> fst ` set (fst m)"
      by auto
    with False have fresh: "fst (assign m n v) = fst m @ [(n, v)]"
      by (simp add: fst_assign put_fresh)
    have "fst ` set cs \<inter> fst ` set (fst (assign m n v)) = {}"
      using Cons.prems(3,4) c by (auto simp: fresh)
    with Cons.IH [OF rest Cons.prems(2)] Cons.prems(3)
    have "fst m' = fst (assign m n v) @ map (\<lambda>(n, info). (n, projr (field info))) (stored cs)"
      by simp
    with False c v fresh show ?thesis
      by (simp add: stored_Cons)
  qed
qed

lemma collect_files_reads:
  "collect_files field files x = Inr x' \<Longrightarrow> (fn, n, info) \<in> set (contract_pairs files) \<Longrightarrow>
   \<exists>v. field info = Inr v"
proof (induction files arbitrary: x)
  case Nil
  then show ?case by (simp add: contract_pairs_def)
next
  case (Cons f files)
  obtain fn' contract where f: "f = (fn', contract)" by (cases f)
  from Cons.prems(1) f obtain cs m x2 where
    cs: "entries contract = Inr cs" and m: "collect field fn' cs ([], Object_prototype) = Inr m"
    and rest: "collect_files field files x2 = Inr x'"
    by (auto simp: bind_eq_Inr)
  from Cons.prems(2) f cs consider "(n, info) \<in> set cs" | "(fn, n, info) \<in> set (contract_pairs files)"
    by (auto simp: contract_pairs_Cons)
  then show ?case
  proof cases
    case 1
    with m show ?thesis by (rule collect_reads)
  next
    case 2
    with Cons.IH [OF rest] show ?thesis .
  qed
qed

lemma collect_files_own:
  "collect_files field files x = Inr x' \<Longrightarrow> distinct (map fst files) \<Longrightarrow>
   \<forall>(fn, contract) \<in> set files. distinct (map fst (entries_of contract)) \<Longrightarrow>
   fst ` set files \<inter> fst ` set x = {} \<Longrightarrow>
   x' = x @ map (\<lambda>(fn, contract).
                  (fn, Obj (map (\<lambda>(n, info). (n, projr (field info))) (stored (entries_of contract)))))
              (stored files)"
proof (induction files arbitrary: x)
  case Nil
  then show ?case by (simp add: stored_Nil)
next
  case (Cons f files)
  obtain fn contract where f: "f = (fn, contract)" by (cases f)
  from Cons.prems(1) f obtain cs m where
    cs: "entries contract = Inr cs" and m: "collect field fn cs ([], Object_prototype) = Inr m"
    and rest: "collect_files field files (if fn = ''__proto__'' then x else put x fn (Obj (fst m)))
                 = Inr x'"
    by (auto simp: bind_eq_Inr)
  from cs have eo: "entries_of contract = cs"
    by (simp add: entries_of_def)
  show ?case
  proof (cases "fn = ''__proto__''")
    case True
    with rest have rest': "collect_files field files x = Inr x'" by simp
    from Cons.prems(4) have "fst ` set files \<inter> fst ` set x = {}"
      by auto
    with Cons.IH [OF rest'] Cons.prems(2,3) True f show ?thesis
      by (simp add: stored_Cons)
  next
    case False
    with rest have rest': "collect_files field files (put x fn (Obj (fst m))) = Inr x'" by simp
    from Cons.prems(3) f eo have "distinct (map fst cs)" by simp
    with collect_own [OF m False] have
      m': "fst m = map (\<lambda>(n, info). (n, projr (field info))) (stored cs)"
      by simp
    from Cons.prems(4) f have fresh: "put x fn (Obj (fst m)) = x @ [(fn, Obj (fst m))]"
      by (intro put_fresh) auto
    have "fst ` set files \<inter> fst ` set (put x fn (Obj (fst m))) = {}"
      using Cons.prems(2,4) f by (auto simp: fresh)
    with Cons.IH [OF rest'] Cons.prems(2,3) have
      "x' = put x fn (Obj (fst m)) @ map (\<lambda>(fn, contract).
               (fn, Obj (map (\<lambda>(n, info). (n, projr (field info))) (stored (entries_of contract)))))
             (stored files)"
      by simp
    with False f fresh m' eo show ?thesis
      by (simp add: stored_Cons)
  qed
qed

lemma stored_pairs:
  "(fn, contract) \<in> set (stored files) \<Longrightarrow> (n, info) \<in> set (stored (entries_of contract)) \<Longrightarrow>
   (fn, n, info) \<in> set (contract_pairs files)"
  using stored_subset [of files] stored_subset [of "entries_of contract"]
  by (fastforce simp: contract_pairs_def)

lemma full_mapping_without_proto:
  "full_mapping path (without_proto files)
     = Obj (map (\<lambda>(fn, contract).
                  (fn, Obj (map (\<lambda>(n, info). (n, value_of path info)) (stored (entries_of contract)))))
              (stored files))"
  by (simp add: full_mapping_def without_proto_def entries_of_def case_prod_beta comp_def)

lemma extract_field_all:
  assumes "extract_field field name out = Inr y" "\<not> truthy name"
    and "get out ''contracts'' = Inr contracts" "entries contracts = Inr files"
    and "distinct (map fst files)"
    and "\<forall>(fn, contract) \<in> set files. distinct (map fst (entries_of contract))"
    and field: "\<And>info. field info = get_path info path"
  shows "y = full_mapping path (without_proto files)
         \<and> (\<forall>(fn, n, info) \<in> set (contract_pairs files). get_path info path = Inr (value_of path info))"
proof -
  from assms(1-4) obtain x where x: "collect_files field files [] = Inr x" "y = Obj x"
    by (auto simp: extract_field_def bind_eq_Inr)
  have reads: "get_path info path = Inr (value_of path info)"
    if "(fn, n, info) \<in> set (contract_pairs files)" for fn n info
    using collect_files_reads [OF x(1) that] by (auto simp: field value_of_def)
  then have val: "projr (field info) = value_of path info"
    if "(fn, n, info) \<in> set (contract_pairs files)" for fn n info
    using that by (simp add: field)
  have inner: "map (\<lambda>(n, info). (n, projr (field info))) (stored (entries_of contract))
        = map (\<lambda>(n, info). (n, value_of path info)) (stored (entries_of contract))"
    if f: "(fn, contract) \<in> set (stored files)" for fn contract
  proof (rule map_cong [OF refl])
    fix c
    assume c: "c \<in> set (stored (entries_of contract))"
    obtain n info where c': "c = (n, info)" by (cases c)
    with stored_pairs [OF f] c have "(fn, n, info) \<in> set (contract_pairs files)"
      by simp
    from val [OF this] c' show
      "(case c of (n, info) \<Rightarrow> (n, projr (field info))) = (case c of (n, info) \<Rightarrow> (n, value_of path info))"
      by simp
  qed
  have "map (\<lambda>(fn, contract).
               (fn, Obj (map (\<lambda>(n, info). (n, projr (field info))) (stored (entries_of contract)))))
          (stored files)
      = map (\<lambda>(fn, contract).
               (fn, Obj (map (\<lambda>(n, info). (n, value_of path info)) (stored (entries_of contract)))))
          (stored files)"
  proof (rule map_cong [OF refl])
    fix f
    assume f: "f \<in> set (stored files)"
    obtain fn contract where "f = (fn, contract)" by (cases f)
    with f inner show
      "(case f of (fn, contract) \<Rightarrow>
          (fn, Obj (map (\<lambda>(n, info). (n, projr (field info))) (stored (entries_of contract)))))
       = (case f of (fn, contract) \<Rightarrow>
          (fn, Obj (map (\<lambda>(n, info). (n, value_of path info)) (stored (entries_of contract)))))"
      by auto
  qed
  with collect_files_own [OF x(1) assms(5,6)] x(2) have "y = full_mapping path (without_proto files)"
    by (simp add: full_mapping_without_proto)
  with reads show ?thesis
    by auto
qed

text \<open>
  The extraction without a filter, for every run that returns a result: each of the four
  results is the two-level mapping of the field over the files and contracts that are not
  named \<^verbatim>\<open>__proto__\<close> (an object has every property name once).
\<close>

lemma extraction_without_filter:
  assumes "handleBuildResult get_ast get_invariants output compiler_version compiler_json contract_name
             = (lines, Inr r)"
    and "\<not> truthy contract_name"
    and "get output ''contracts'' = Inr contracts"
    and "entries contracts = Inr files"
    and "distinct (map fst files)"
    and "\<forall>(fn, contract) \<in> set files. distinct (map fst (entries_of contract))"
  shows "sourcemap r = full_mapping [''evm'', ''deployedBytecode'', ''sourceMap''] (without_proto files)
       \<and> bytecode r = full_mapping [''evm'', ''bytecode'', ''object''] (without_proto files)
       \<and> runtime_bytecode r
           = full_mapping [''evm'', ''deployedBytecode'', ''object''] (without_proto files)
       \<and> abi r = full_mapping [''abi''] (without_proto files)"
proof -
  from assms(1) obtain output' ast' ast_tree iv where
    m: "merged output compiler_json = ([], Inr output')"
    and a: "artifacts output' compiler_version compiler_json contract_name ast' iv = Inr r"
    by (rule handleBuildResult_InrE)
  from a have x:
    "extract_field sourcemap_of contract_name output' = Inr (sourcemap r)"
    "extract_field bytecode_of contract_name output' = Inr (bytecode r)"
    "extract_field runtime_bytecode_of contract_name output' = Inr (runtime_bytecode r)"
    "extract_field abi_of contract_name output' = Inr (abi r)"
    by (auto elim: artifacts_InrE)
  from m assms(3) have c: "get output' ''contracts'' = Inr contracts"
    by (simp add: merged_get named_contracts)
  note all = extract_field_all [OF _ assms(2) c assms(4,5,6)]
  from all [OF x(1)] have "sourcemap r
      = full_mapping [''evm'', ''deployedBytecode'', ''sourceMap''] (without_proto files)"
    by (simp add: sourcemap_of_def)
  moreover from all [OF x(2)] have "bytecode r
      = full_mapping [''evm'', ''bytecode'', ''object''] (without_proto files)"
    by (simp add: bytecode_of_def)
  moreover from all [OF x(3)] have "runtime_bytecode r
      = full_mapping [''evm'', ''deployedBytecode'', ''object''] (without_proto files)"
    by (simp add: runtime_bytecode_of_def)
  moreover from all [OF x(4)] have "abi r = full_mapping [''abi''] (without_proto files)"
    by (simp add: abi_of_def)
  ultimately show ?thesis
    by simp
qed

text \<open>For a document without that name it is the mapping over all files and contracts.\<close>

lemma full_mapping_stored:
  assumes "''__proto__'' \<notin> fst ` set files"
    and "\<forall>(fn, contract) \<in> set files. ''__proto__'' \<notin> fst ` set (entries_of contract)"
  shows "full_mapping path (without_proto files) = full_mapping path files"
proof -
  have "map (\<lambda>(fn, contract).
               (fn, Obj (map (\<lambda>(n, info). (n, value_of path info)) (stored (entries_of contract)))))
          files
      = map (\<lambda>(fn, contract).
               (fn, Obj (map (\<lambda>(n, info). (n, value_of path info)) (entries_of contract))))
          files"
  proof (rule map_cong [OF refl])
    fix f
    assume f: "f \<in> set files"
    obtain fn contract where f': "f = (fn, contract)" by (cases f)
    with f assms(2) have "stored (entries_of contract) = entries_of contract"
      by (intro stored_none) auto
    with f' show
      "(case f of (fn, contract) \<Rightarrow>
          (fn, Obj (map (\<lambda>(n, info). (n, value_of path info)) (stored (entries_of contract)))))
       = (case f of (fn, contract) \<Rightarrow>
          (fn, Obj (map (\<lambda>(n, info). (n, value_of path info)) (entries_of contract))))"
      by simp
  qed
  with assms(1) show ?thesis
    by (simp add: full_mapping_without_proto stored_none) (simp add: full_mapping_def)
qed

subsection \<open>A contract named \<^verbatim>\<open>__proto__\<close>\<close>

text \<open>What the definitions of the normalizer unfold to on the document with \<^verbatim>\<open>__proto__\<close>.\<close>

lemmas proto_simps =
  handleBuildResult_def merged_def optional_get_def lookup_def artifacts_def extract_field_def
  destructure_ast_def sourcemap_of_def bytecode_of_def runtime_bytecode_of_def abi_of_def
  assign_def inherited_def proto_output_def proto_input_def compiled_def example_env_def

text \<open>
  Claim C7. The four extractions (source map, bytecode, runtime bytecode, ABI) are to
  follow one policy: with a filter, each result is the field of the last contract of that
  name in the order of the files and of the contracts within a file; without a filter,
  each result is the two-level mapping of the field over all files and all contracts of
  the output.

  The code keeps to the policy with a filter. Without a filter it leaves out what is named
  \<^verbatim>\<open>__proto__\<close>: the assignment that is to store the contract runs the setter of
  \<^verbatim>\<open>Object.prototype\<close> and adds no property. Here the compiler has written the contracts
  \<open>Foo\<close> and \<^verbatim>\<open>__proto__\<close> of \<open>A.sol\<close>. Without a filter each of the four mappings holds
  \<open>Foo\<close> only; with the filter \<^verbatim>\<open>__proto__\<close> the same document gives the four fields of
  that contract.
\<close>

theorem unfiltered_extraction_drops_proto_contract:
  "handleBuildResult (env_get_ast example_env) (env_get_invariants example_env)
     proto_output (Str ''v0.8.20'') proto_input (Str [])
   = ([Timing ''Compiling took'', Timing ''Analyzing AST took''],
      Inr \<lparr>ast = Obj [],
           sourcemap = Obj [(''A.sol'', Obj [(''Foo'', Str ''0:15:0:-:0;Foo'')])],
           sources = Obj [(''A.sol'', Obj [(''id'', Num ''0''),
                                         (''source'', Str ''contract Foo {} contract __proto__ {}'')])],
           bytecode = Obj [(''A.sol'', Obj [(''Foo'', Str ''60806040Foo'')])],
           runtime_bytecode = Obj [(''A.sol'', Obj [(''Foo'', Str ''6080Foo'')])],
           abi = Obj [(''A.sol'',
                      Obj [(''Foo'', Arr [Obj [(''type'', Str ''function''), (''name'', Str ''getFoo''),
                                              (''inputs'', Arr [] []), (''outputs'', Arr [] []),
                                              (''stateMutability'', Str ''view'')]] [])])],
           invariants = Arr [] [],
           compiler_args = Obj [(''version'', Str ''v0.8.20''), (''compiler_json'', proto_input)]\<rparr>)
   \<and> handleBuildResult (env_get_ast example_env) (env_get_invariants example_env)
       proto_output (Str ''v0.8.20'') proto_input (Str ''__proto__'')
   = ([Timing ''Compiling took'', Timing ''Analyzing AST took''],
      Inr \<lparr>ast = Obj [],
           sourcemap = Str ''0:15:0:-:0;__proto__'',
           sources = Obj [(''A.sol'', Obj [(''id'', Num ''0''),
                                         (''source'', Str ''contract Foo {} contract __proto__ {}'')])],
           bytecode = Str ''60806040__proto__'',
           runtime_bytecode = Str ''6080__proto__'',
           abi = Arr [Obj [(''type'', Str ''function''), (''name'', Str ''get__proto__''),
                           (''inputs'', Arr [] []), (''outputs'', Arr [] []),
                           (''stateMutability'', Str ''view'')]] [],
           invariants = Arr [] [],
           compiler_args = Obj [(''version'', Str ''v0.8.20''), (''compiler_json'', proto_input)]\<rparr>)"
  by (simp add: proto_simps)

subsection \<open>A name no contract has\<close>

lemma pick_files_entries:
  "pick_files field name files x = Inr y \<Longrightarrow> (fn, contract) \<in> set files \<Longrightarrow>
   \<exists>cs. entries contract = Inr cs"
proof (induction files arbitrary: x)
  case Nil
  then show ?case by simp
next
  case (Cons f files)
  obtain fn' contract' where f: "f = (fn', contract')" by (cases f)
  from Cons.prems(1) f obtain cs x' where
    "entries contract' = Inr cs" "pick_files field name files x' = Inr y"
    by (auto simp: bind_eq_Inr)
  with Cons.IH [of x'] Cons.prems(2) f show ?case by auto
qed

lemma collect_files_entries:
  "collect_files field files x = Inr y \<Longrightarrow> (fn, contract) \<in> set files \<Longrightarrow>
   \<exists>cs. entries contract = Inr cs"
proof (induction files arbitrary: x)
  case Nil
  then show ?case by simp
next
  case (Cons f files)
  obtain fn' contract' where f: "f = (fn', contract')" by (cases f)
  from Cons.prems(1) f obtain cs x' where
    "entries contract' = Inr cs" "collect_files field files x' = Inr y"
    by (auto simp: bind_eq_Inr)
  with Cons.IH [of x'] Cons.prems(2) f show ?case by auto
qed

lemma pick_files_no_match:
  "\<forall>(fn, contract) \<in> set files. \<exists>cs. entries contract = Inr cs \<Longrightarrow>
   \<forall>(fn, name, info) \<in> set (contract_pairs files). Str name \<noteq> nm \<Longrightarrow>
   pick_files field nm files x = Inr x"
proof (induction files)
  case Nil
  then show ?case by simp
next
  case (Cons f files)
  obtain fn contract where f: "f = (fn, contract)" by (cases f)
  with Cons.prems(1) obtain cs where cs: "entries contract = Inr cs" by auto
  have here: "\<forall>(n, info) \<in> set cs. Str n \<noteq> nm"
  proof (clarify)
    fix n info
    assume "(n, info) \<in> set cs" "nm = Str n"
    then have "(fn, n, info) \<in> set (contract_pairs (f # files))"
      using f cs by (simp add: contract_pairs_Cons image_iff)
    with Cons.prems(2) \<open>nm = Str n\<close> show False
      by blast
  qed
  from Cons.prems(2) f cs have "\<forall>(fn, name, info) \<in> set (contract_pairs files). Str name \<noteq> nm"
    by (simp add: contract_pairs_Cons)
  with Cons.IH Cons.prems(1) have "pick_files field nm files x = Inr x"
    by simp
  with f cs here show ?case
    by (simp add: pick_no_match)
qed

lemma extract_field_entries:
  assumes "extract_field field name0 out = Inr y"
    and "get out ''contracts'' = Inr contracts" "entries contracts = Inr files"
    and "(fn, contract) \<in> set files"
  shows "\<exists>cs. entries contract = Inr cs"
proof (cases "truthy name0")
  case True
  with assms(1-3) have "pick_files field name0 files Null = Inr y"
    by (simp add: extract_field_def)
  then show ?thesis using assms(4) by (rule pick_files_entries)
next
  case False
  with assms(1-3) obtain x where "collect_files field files [] = Inr x"
    by (auto simp: extract_field_def bind_eq_Inr)
  then show ?thesis using assms(4) by (rule collect_files_entries)
qed

lemma extract_field_absent:
  assumes "extract_field field name0 out = Inr y"
    and "get out ''contracts'' = Inr contracts" "entries contracts = Inr files"
    and "n \<noteq> []"
    and "\<forall>(fn, name, info) \<in> set (contract_pairs files). name \<noteq> n"
  shows "extract_field field' (Str n) out = Inr Null"
proof -
  have "\<forall>(fn, contract) \<in> set files. \<exists>cs. entries contract = Inr cs"
    using extract_field_entries [OF assms(1-3)] by auto
  moreover from assms(5) have "\<forall>(fn, name, info) \<in> set (contract_pairs files). Str name \<noteq> Str n"
    by auto
  ultimately have "pick_files field' (Str n) files Null = Inr Null"
    by (rule pick_files_no_match)
  with assms(2-4) show ?thesis
    by (simp add: extract_field_def)
qed

text \<open>
  Claim C10. When the normalization of a document succeeds for some filter, or for none,
  it also succeeds for a non-empty filter that names no contract of any file: no error is
  raised, and \<^verbatim>\<open>sourcemap\<close>, \<^verbatim>\<open>bytecode\<close>, \<^verbatim>\<open>runtime_bytecode\<close> and \<^verbatim>\<open>abi\<close> are
  \<^verbatim>\<open>null\<close>.
\<close>

theorem absent_contract_gives_null:
  assumes "handleBuildResult get_ast get_invariants output compiler_version compiler_json name0
             = (lines, Inr r0)"
    and "get output ''contracts'' = Inr contracts"
    and "entries contracts = Inr files"
    and "n \<noteq> []"
    and "\<forall>(fn, name, info) \<in> set (contract_pairs files). name \<noteq> n"
  shows "handleBuildResult get_ast get_invariants output compiler_version compiler_json (Str n)
           = (lines, Inr (r0\<lparr>sourcemap := Null, bytecode := Null, runtime_bytecode := Null,
                               abi := Null\<rparr>))"
proof -
  from assms(1) obtain output' ast' ast_tree iv where
    m: "merged output compiler_json = ([], Inr output')"
    and t: "bind (get_ast output') destructure_ast = Inr (ast', ast_tree)"
    and a: "artifacts output' compiler_version compiler_json name0 ast' iv = Inr r0"
    by (rule handleBuildResult_InrE)
  from m assms(2) have c: "get output' ''contracts'' = Inr contracts"
    by (simp add: merged_get named_contracts)
  have null: "extract_field field' (Str n) output' = Inr Null" for field'
    using a c assms(3-5) by (auto elim!: artifacts_InrE intro: extract_field_absent)
  have art: "artifacts output' compiler_version compiler_json (Str n) ast' v =
      Inr (r\<lparr>sourcemap := Null, bytecode := Null, runtime_bytecode := Null, abi := Null\<rparr>)"
    if "artifacts output' compiler_version compiler_json name0 ast' v = Inr r" for v r
    using that by (auto simp: artifacts_def bind_eq_Inr null)
  from assms(1) show ?thesis
    unfolding handleBuildResult_analysed [where get_ast = get_ast, OF m t]
    by (auto split: sum.splits dest: art)
qed

text \<open>The same on the example of the specification, with the filter \<open>Qux\<close>.\<close>

theorem absent_contract_gives_null_witness:
  "\<exists>lines r0.
     handleBuildResult (env_get_ast example_env) (env_get_invariants example_env)
       example_output (Str ''v0.8.20'') example_input Undefined = (lines, Inr r0)
     \<and> handleBuildResult (env_get_ast example_env) (env_get_invariants example_env)
         example_output (Str ''v0.8.20'') example_input (Str ''Qux'')
       = (lines, Inr (r0\<lparr>sourcemap := Null, bytecode := Null, runtime_bytecode := Null,
                           abi := Null\<rparr>))"
proof -
  from example_all obtain r where
    r: "handleBuildResult (env_get_ast example_env) (env_get_invariants example_env)
          example_output (Str ''v0.8.20'') example_input Undefined
        = ([Timing ''Compiling took'', Timing ''Analyzing AST took''], Inr r)"
    by blast
  have e: "entries (Obj [(''A.sol'', Obj [(''Foo'', contract_info ''Foo''), (''Bar'', contract_info ''Bar'')]),
               (''B.sol'', Obj [(''Baz'', contract_info ''Baz'')])])
      = Inr [(''A.sol'', Obj [(''Foo'', contract_info ''Foo''), (''Bar'', contract_info ''Bar'')]),
               (''B.sol'', Obj [(''Baz'', contract_info ''Baz'')])]"
    by simp
  have "handleBuildResult (env_get_ast example_env) (env_get_invariants example_env)
         example_output (Str ''v0.8.20'') example_input (Str ''Qux'')
       = ([Timing ''Compiling took'', Timing ''Analyzing AST took''],
          Inr (r\<lparr>sourcemap := Null, bytecode := Null, runtime_bytecode := Null, abi := Null\<rparr>))"
    by (rule absent_contract_gives_null [OF r example_contracts e]) (simp_all add: example_pairs)
  with r show ?thesis by blast
qed

subsection \<open>The merge of the source texts\<close>

lemma merge_sources_Obj:
  assumes "merge_sources files (Obj out) = Inr out'"
    and "lookup out ''sources'' = Obj osrcs"
  shows "\<exists>out2 osrcs'. out' = Obj out2 \<and> lookup out2 ''sources'' = Obj osrcs'
           \<and> map fst osrcs' = map fst osrcs
           \<and> (distinct (map fst files) \<longrightarrow>
                (\<forall>(fn, contract) \<in> set files. \<exists>e e' content.
                    map_of osrcs fn = Some e \<and> get contract ''content'' = Inr content
                    \<and> set_prop e ''source'' content = Inr e' \<and> map_of osrcs' fn = Some e'))
           \<and> (\<forall>k. k \<notin> fst ` set files \<longrightarrow> map_of osrcs' k = map_of osrcs k)"
  using assms
proof (induction files arbitrary: out osrcs)
  case Nil
  then have "out' = Obj out" by simp
  with Nil(2) show ?case
    by (intro exI [of _ out] exI [of _ osrcs]) simp
next
  case (Cons f files)
  obtain fn contract where f: "f = (fn, contract)" by (cases f)
  let ?entry = "lookup osrcs fn"
  from Cons.prems f obtain content entry' where
    content: "get contract ''content'' = Inr content"
    and entry': "set_prop ?entry ''source'' content = Inr entry'"
    and rest: "merge_sources files (Obj (put out ''sources'' (Obj (put osrcs fn entry')))) = Inr out'"
    by (auto simp: bind_eq_Inr)
  from entry' have present: "map_of osrcs fn = Some ?entry"
    by (rule set_prop_lookup_Some)
  have "lookup (put out ''sources'' (Obj (put osrcs fn entry'))) ''sources'' = Obj (put osrcs fn entry')"
    by (simp add: lookup_put)
  from Cons.IH [OF rest this] obtain out2 osrcs' where
    o: "out' = Obj out2" "lookup out2 ''sources'' = Obj osrcs'"
    and keys: "map fst osrcs' = map fst (put osrcs fn entry')"
    and merged': "distinct (map fst files) \<longrightarrow>
           (\<forall>(g, contract) \<in> set files. \<exists>e e' content.
               map_of (put osrcs fn entry') g = Some e \<and> get contract ''content'' = Inr content
               \<and> set_prop e ''source'' content = Inr e' \<and> map_of osrcs' g = Some e')"
    and others: "\<forall>k. k \<notin> fst ` set files \<longrightarrow> map_of osrcs' k = map_of (put osrcs fn entry') k"
    by blast
  have "map fst osrcs' = map fst osrcs"
    using keys present by (simp add: map_fst_put_present)
  moreover have "\<forall>k. k \<notin> fst ` set (f # files) \<longrightarrow> map_of osrcs' k = map_of osrcs k"
    using others f by (simp add: map_of_put)
  moreover have "\<forall>(g, contract) \<in> set (f # files). \<exists>e e' content.
                    map_of osrcs g = Some e \<and> get contract ''content'' = Inr content
                    \<and> set_prop e ''source'' content = Inr e' \<and> map_of osrcs' g = Some e'"
    if d: "distinct (map fst (f # files))"
  proof (clarify)
    fix g c
    assume g: "(g, c) \<in> set (f # files)"
    show "\<exists>e e' content.
            map_of osrcs g = Some e \<and> get c ''content'' = Inr content
            \<and> set_prop e ''source'' content = Inr e' \<and> map_of osrcs' g = Some e'"
    proof (cases "(g, c) = f")
      case True
      with f d have "fn \<notin> fst ` set files" "g = fn" "c = contract" by auto
      with others present content entry' show ?thesis
        by (simp add: map_of_put)
    next
      case False
      with g have in_rest: "(g, c) \<in> set files" by simp
      with d f have "g \<noteq> fn" by (auto simp: image_iff)
      from d merged' in_rest obtain e e' content' where
        "map_of (put osrcs fn entry') g = Some e" "get c ''content'' = Inr content'"
        "set_prop e ''source'' content' = Inr e'" "map_of osrcs' g = Some e'"
        by fastforce
      with \<open>g \<noteq> fn\<close> show ?thesis
        by (simp add: map_of_put)
    qed
  qed
  ultimately show ?case
    using o by blast
qed

lemma assemble_sources_other:
  "assemble_sources files acc = Inr ss \<Longrightarrow> k \<notin> fst ` set files \<Longrightarrow> lookup ss k = lookup acc k"
proof (induction files arbitrary: acc)
  case Nil
  then show ?case by simp
next
  case (Cons f files)
  obtain fn e where f: "f = (fn, e)" by (cases f)
  from Cons.prems(1) f obtain i s where
    "assemble_sources files (put acc fn (Obj [(''id'', i), (''source'', s)])) = Inr ss"
    by (auto simp: bind_eq_Inr)
  from Cons.IH [OF this] Cons.prems(2) f show ?case
    by (simp add: lookup_put)
qed

lemma assemble_sources_lookup:
  "assemble_sources files acc = Inr ss \<Longrightarrow> distinct (map fst files) \<Longrightarrow> (fn, e) \<in> set files \<Longrightarrow>
   \<exists>i s. get e ''id'' = Inr i \<and> get e ''source'' = Inr s
        \<and> lookup ss fn = Obj [(''id'', i), (''source'', s)]"
proof (induction files arbitrary: acc)
  case Nil
  then show ?case by simp
next
  case (Cons f files)
  obtain fn' e' where f: "f = (fn', e')" by (cases f)
  from Cons.prems(1) f obtain i s where
    i: "get e' ''id'' = Inr i" and s: "get e' ''source'' = Inr s"
    and rest: "assemble_sources files (put acc fn' (Obj [(''id'', i), (''source'', s)])) = Inr ss"
    by (auto simp: bind_eq_Inr)
  show ?case
  proof (cases "(fn, e) = f")
    case True
    with f Cons.prems(2) have "fn' \<notin> fst ` set files" by simp
    from assemble_sources_other [OF rest this] True f i s show ?thesis
      by (simp add: lookup_put)
  next
    case False
    with Cons.prems(3) have "(fn, e) \<in> set files" by simp
    with Cons.IH [OF rest] Cons.prems(2) show ?thesis by simp
  qed
qed

text \<open>
  Claim C9. For every file of the input document for which the output document holds a
  source record, the \<^verbatim>\<open>source\<close> of the normalized \<^verbatim>\<open>sources[file]\<close> is the
  \<^verbatim>\<open>content\<close> of the file in the input document, and its \<^verbatim>\<open>id\<close> is the \<^verbatim>\<open>id\<close> the
  compiler gave the file (an object has every property name once).
\<close>

theorem source_merge:
  assumes "handleBuildResult get_ast get_invariants output compiler_version compiler_json contract_name
             = (lines, Inr r)"
    and "get compiler_json ''sources'' = Inr inputs"
    and "entries inputs = Inr files"
    and "distinct (map fst files)"
    and "(fn, contract) \<in> set files"
    and "output = Obj out"
    and "lookup out ''sources'' = Obj osrcs"
    and "distinct (map fst osrcs)"
    and "lookup osrcs fn = Obj entry"
  shows "get_path (sources r) [fn, ''source''] = get contract ''content''
       \<and> get_path (sources r) [fn, ''id''] = Inr (lookup entry ''id'')"
proof -
  from assms(1) obtain output' ast' ast_tree iv where
    m: "merged output compiler_json = ([], Inr output')"
    and a: "artifacts output' compiler_version compiler_json contract_name ast' iv = Inr r"
    by (rule handleBuildResult_InrE)
  from m assms(2,3,6) have "merge_sources files (Obj out) = Inr output'"
    by (auto simp: merged_def split: sum.splits prod.splits option.splits)
  from merge_sources_Obj [OF this assms(7)] assms(4) obtain out2 osrcs' where
    o: "output' = Obj out2" "lookup out2 ''sources'' = Obj osrcs'"
    and keys: "map fst osrcs' = map fst osrcs"
    and merged': "\<forall>(fn, contract) \<in> set files. \<exists>e e' content.
                    map_of osrcs fn = Some e \<and> get contract ''content'' = Inr content
                    \<and> set_prop e ''source'' content = Inr e' \<and> map_of osrcs' fn = Some e'"
    by blast
  from merged' assms(5) obtain e e' content where
    e: "map_of osrcs fn = Some e" and content: "get contract ''content'' = Inr content"
    and e': "set_prop e ''source'' content = Inr e'" "map_of osrcs' fn = Some e'"
    by blast
  from e assms(9) have "e = Obj entry"
    by (simp add: lookup_def)
  with e' have e'_eq: "e' = Obj (put entry ''source'' content)" and in_set: "(fn, e') \<in> set osrcs'"
    by (auto dest: map_of_SomeD)
  from a obtain srcs files' ss where
    g: "get output' ''sources'' = Inr srcs" "entries srcs = Inr files'"
    and ss': "assemble_sources files' [] = Inr ss" "sources r = Obj ss"
    by (rule artifacts_InrE)
  from g o have "files' = osrcs'" by auto
  with ss' have ss: "assemble_sources osrcs' [] = Inr ss" "sources r = Obj ss"
    by simp_all
  from keys assms(8) have "distinct (map fst osrcs')" by simp
  from assemble_sources_lookup [OF ss(1) this in_set] e'_eq
  have "lookup ss fn = Obj [(''id'', lookup entry ''id''), (''source'', content)]"
    by (simp add: lookup_put)
  with ss(2) content show ?thesis
    by (simp add: lookup_def)
qed

text \<open>The same for \<open>B.sol\<close> in the example of the specification.\<close>

theorem source_merge_witness:
  "\<exists>lines r.
     handleBuildResult (env_get_ast example_env) (env_get_invariants example_env)
       example_output (Str ''v0.8.20'') example_input Undefined = (lines, Inr r)
     \<and> get_path (sources r) [''B.sol'', ''source''] = Inr (Str ''contract Baz {}'')
     \<and> get_path (sources r) [''B.sol'', ''id''] = Inr (Num ''1'')"
proof -
  from example_all obtain r where
    r: "handleBuildResult (env_get_ast example_env) (env_get_invariants example_env)
          example_output (Str ''v0.8.20'') example_input Undefined
        = ([Timing ''Compiling took'', Timing ''Analyzing AST took''], Inr r)"
    by blast
  let ?inputs = "[(''A.sol'', Obj [(''content'', Str ''contract Foo {} contract Bar {}'')]),
                  (''B.sol'', Obj [(''content'', Str ''contract Baz {}'')])]"
  let ?osrcs = "[(''A.sol'', Obj [(''id'', Num ''0''), (''ast'', Obj [])]),
                 (''B.sol'', Obj [(''id'', Num ''1''), (''ast'', Obj [])])]"
  let ?out = "[(''contracts'',
                Obj [(''A.sol'', Obj [(''Foo'', contract_info ''Foo''), (''Bar'', contract_info ''Bar'')]),
                     (''B.sol'', Obj [(''Baz'', contract_info ''Baz'')])]),
               (''sources'', Obj ?osrcs)]"
  have h2: "get example_input ''sources'' = Inr (Obj ?inputs)"
    by (simp add: example_input_def lookup_def)
  have h3: "entries (Obj ?inputs) = Inr ?inputs"
    by simp
  have h4: "distinct (map fst ?inputs)"
    by simp
  have h5: "(''B.sol'', Obj [(''content'', Str ''contract Baz {}'')]) \<in> set ?inputs"
    by simp
  have h6: "example_output = Obj ?out"
    by (simp add: example_output_def)
  have h7: "lookup ?out ''sources'' = Obj ?osrcs"
    by (simp add: lookup_def)
  have h8: "distinct (map fst ?osrcs)"
    by simp
  have h9: "lookup ?osrcs ''B.sol'' = Obj [(''id'', Num ''1''), (''ast'', Obj [])]"
    by (simp add: lookup_def)
  from source_merge [OF r h2 h3 h4 h5 h6 h7 h8 h9] r show ?thesis
    by (auto simp: lookup_def)
qed

section \<open>Properties of the pipeline\<close>

subsection \<open>The cache key\<close>

lemma hash_without_settings:
  "contractHash input_without_settings = Inr ''766891c1199d5058484142e04f212918''"
  by code_simp

lemma hash_with_empty_settings:
  "contractHash input_with_empty_settings = Inr ''70275ecea941671fd01e6ad66d6441d7''"
  by code_simp

lemma augment_without_settings:
  "augment input_without_settings =
     Inr (Obj [(''language'', Str ''Solidity''), (''sources'', Obj []),
               (''settings'', Obj [(''outputSelection'', output_selection)])])"
  by (simp add: augment_def input_without_settings_def lookup_def generate_settings_Undefined)

lemma augment_with_empty_settings:
  "augment input_with_empty_settings =
     Inr (Obj [(''language'', Str ''Solidity''), (''sources'', Obj []),
               (''settings'', Obj [(''outputSelection'', output_selection)])])"
  by (simp add: augment_def input_with_empty_settings_def lookup_def generate_settings_Obj)

lemma cache_entry_InrE:
  assumes "cache_entry compiler_json w = (Inr (h, augmented), w')"
  obtains serial serial' where
    "JSON_stringify compiler_json = Some serial" "h = md5 serial"
    "augment compiler_json = Inr augmented"
    "JSON_stringify augmented = Some serial'"
    "fs w (currentFile h) = None \<longrightarrow> fs w' (currentFile h) = Some (File serial')"
proof -
  from assms obtain serial where t: "JSON_stringify compiler_json = Some serial" "h = md5 serial"
    by (auto simp: cache_entry_def contractHash_def Let_def split: option.splits sum.splits if_splits)
  from assms have a: "augment compiler_json = Inr augmented"
    by (auto simp: cache_entry_def Let_def split: option.splits sum.splits if_splits)
  then have "augmented \<noteq> Undefined"
    by (cases compiler_json) (auto simp: augment_def bind_eq_Inr)
  then obtain serial' where t': "JSON_stringify augmented = Some serial'"
    by (cases augmented) simp_all
  have f: "fs w (currentFile h) = None \<longrightarrow> fs w' (currentFile h) = Some (File serial')"
    using assms t t' a
    by (auto simp: cache_entry_def contractHash_def Let_def existsSync_def mkdirSync_def
          writeFileSync_def currentFile_def split: if_splits)
  from t a t' f show thesis
    by (rule that)
qed

text \<open>
  Claim C2, as the code has it. The digest is taken of the text of the input document as
  the caller supplied it, before the augmenter runs; the augmented document is what is
  written to the input file of the cache, when that file is absent. Two input documents
  with the same text have the same digest and the same two file paths.
\<close>

theorem cache_key_over_supplied_document:
  assumes "cache_entry compiler_json w = (Inr (h, augmented), w')"
  shows "\<exists>serial serial'. JSON_stringify compiler_json = Some serial \<and> h = md5 serial
           \<and> augment compiler_json = Inr augmented \<and> JSON_stringify augmented = Some serial'
           \<and> (fs w (currentFile h) = None \<longrightarrow> fs w' (currentFile h) = Some (File serial'))
           \<and> (\<forall>other w2 h2 augmented2 w2'.
                 cache_entry other w2 = (Inr (h2, augmented2), w2') \<longrightarrow>
                 JSON_stringify other = JSON_stringify compiler_json \<longrightarrow>
                 h2 = h \<and> currentFile h2 = currentFile h \<and> outputJson h2 = outputJson h)"
proof -
  from assms obtain serial serial' where
    t: "JSON_stringify compiler_json = Some serial" "h = md5 serial"
      "augment compiler_json = Inr augmented"
      "JSON_stringify augmented = Some serial'"
      "fs w (currentFile h) = None \<longrightarrow> fs w' (currentFile h) = Some (File serial')"
    by (rule cache_entry_InrE)
  have k: "\<forall>other w2 h2 augmented2 w2'.
      cache_entry other w2 = (Inr (h2, augmented2), w2') \<longrightarrow>
      JSON_stringify other = JSON_stringify compiler_json \<longrightarrow>
      h2 = h \<and> currentFile h2 = currentFile h \<and> outputJson h2 = outputJson h"
  proof (intro allI impI)
    fix other w2 h2 augmented2 w2'
    assume c: "cache_entry other w2 = (Inr (h2, augmented2), w2')"
      and s: "JSON_stringify other = JSON_stringify compiler_json"
    from c obtain serial2 where "JSON_stringify other = Some serial2" "h2 = md5 serial2"
      by (rule cache_entry_InrE)
    with s t(1,2) have "h2 = h" by simp
    then show "h2 = h \<and> currentFile h2 = currentFile h \<and> outputJson h2 = outputJson h"
      by simp
  qed
  show ?thesis
  proof (intro exI conjI)
    show "JSON_stringify compiler_json = Some serial" by (fact t(1))
    show "h = md5 serial" by (fact t(2))
    show "augment compiler_json = Inr augmented" by (fact t(3))
    show "JSON_stringify augmented = Some serial'" by (fact t(4))
    show "fs w (currentFile h) = None \<longrightarrow> fs w' (currentFile h) = Some (File serial')"
      by (fact t(5))
    show "\<forall>other w2 h2 augmented2 w2'.
      cache_entry other w2 = (Inr (h2, augmented2), w2') \<longrightarrow>
      JSON_stringify other = JSON_stringify compiler_json \<longrightarrow>
      h2 = h \<and> currentFile h2 = currentFile h \<and> outputJson h2 = outputJson h"
      by (fact k)
  qed
qed

text \<open>The same for an input document without settings, in an empty working directory.\<close>

theorem cache_key_over_supplied_document_witness:
  "\<exists>w'. cache_entry input_without_settings empty_world
          = (Inr (''766891c1199d5058484142e04f212918'',
                  Obj [(''language'', Str ''Solidity''), (''sources'', Obj []),
                       (''settings'', Obj [(''outputSelection'', output_selection)])]), w')
        \<and> (\<exists>serial'. fs w' (currentFile ''766891c1199d5058484142e04f212918'')
                        = Some (File serial')
              \<and> JSON_stringify (Obj [(''language'', Str ''Solidity''), (''sources'', Obj []),
                       (''settings'', Obj [(''outputSelection'', output_selection)])])
                  = Some serial')"
proof -
  have "fs empty_world ''.tmp'' = None"
    by (simp add: empty_world_def)
  then have "\<exists>w'. cache_entry input_without_settings empty_world
          = (Inr (''766891c1199d5058484142e04f212918'',
                  Obj [(''language'', Str ''Solidity''), (''sources'', Obj []),
                       (''settings'', Obj [(''outputSelection'', output_selection)])]), w')"
    by (simp add: cache_entry_def hash_without_settings augment_without_settings Let_def
          existsSync_def mkdirSync_def writeFileSync_def)
  then obtain w' where c: "cache_entry input_without_settings empty_world
          = (Inr (''766891c1199d5058484142e04f212918'',
                  Obj [(''language'', Str ''Solidity''), (''sources'', Obj []),
                       (''settings'', Obj [(''outputSelection'', output_selection)])]), w')"
    by blast
  have "fs empty_world (currentFile ''766891c1199d5058484142e04f212918'') = None"
    by (simp add: empty_world_def)
  with cache_key_over_supplied_document [OF c] c show ?thesis
    by blast
qed

text \<open>
  Claim C2 as it is written takes the digest of the augmented document, so that two
  inputs that the augmenter makes equal share their cache entry. An input without
  settings and the same input with empty settings are such a pair, and their digests
  differ.
\<close>

theorem cache_key_counterexample:
  "augment input_without_settings = augment input_with_empty_settings
   \<and> contractHash input_without_settings \<noteq> contractHash input_with_empty_settings"
  by (simp add: augment_without_settings augment_with_empty_settings
        hash_without_settings hash_with_empty_settings)

subsection \<open>The cache hit\<close>

lemma cache_entry_keeps:
  assumes "cache_entry compiler_json w = (r, w')"
  shows "execs w' = execs w" and "printed w' = printed w"
    and "fs w path = Some node \<Longrightarrow> fs w' path = Some node"
  using assms
  by (auto simp: cache_entry_def Let_def existsSync_def mkdirSync_def writeFileSync_def
        split: sum.splits option.splits if_splits)

lemma cache_entry_succeeds:
  assumes "contractHash compiler_json = Inr h" and "augment compiler_json = Inr augmented"
    and "fs w ''.tmp'' = Some Dir"
  shows "\<exists>w'. cache_entry compiler_json w = (Inr (h, augmented), w')"
proof -
  from assms(2) have "augmented \<noteq> Undefined"
    by (cases compiler_json) (auto simp: augment_def bind_eq_Inr)
  then obtain serial' where "JSON_stringify augmented = Some serial'"
    by (cases augmented) simp_all
  with assms show ?thesis
    by (simp add: cache_entry_def Let_def existsSync_def writeFileSync_def)
qed

lemma cache_entry_hash:
  "cache_entry compiler_json w = (Inr (h', augmented), w') \<Longrightarrow> contractHash compiler_json = Inr h'"
  by (auto simp: cache_entry_def Let_def split: sum.splits if_splits)

lemma normalize_output_execs:
  "execs (snd (normalize_output env cv cj name path w)) = execs w"
  by (simp add: normalize_output_def split: sum.splits prod.splits)

lemma execs_print [simp]: "execs (print line w) = execs w"
  by (simp add: print_def)

lemma fs_print [simp]: "fs (print line w) = fs w"
  by (simp add: print_def)

lemma normalize_output_resolves:
  assumes "fs w path = Some (File cached)" and "env_parse env cached = Inr out"
    and "handleBuildResult (env_get_ast env) (env_get_invariants env) out cv cj name
           = (lines, Inr result)"
    and "get_path cj [''settings'', ''remappings''] = Inr remappings"
  shows "fst (normalize_output env cv cj name path w) = Resolved (Success remappings result)"
  using assms by (simp add: normalize_output_def readFileSync_def)

lemma empty_output_normalized:
  "\<exists>r. handleBuildResult (env_get_ast example_env) (env_get_invariants example_env)
          empty_output (Str ''v0.8.20'')
          (Obj [(''language'', Str ''Solidity''), (''sources'', Obj []),
                (''settings'', Obj [(''outputSelection'', output_selection)])]) Undefined
        = ([Timing ''Compiling took'', Timing ''Analyzing AST took''], Inr r)"
  by (simp add: handleBuildResult_def merged_def optional_get_def lookup_def artifacts_def
        extract_field_def destructure_ast_def empty_output_def example_env_def)

text \<open>
  Claim C8, as the code has it. When the output file of the request exists, the pipeline
  gives no command to \<^verbatim>\<open>exec\<close>. It reads and parses that file and normalizes the
  document, and when the normalization returns a result it resolves with
  \<^verbatim>\<open>success: true\<close>, the remappings and that result.
\<close>

theorem cache_hit_skips_compiler:
  assumes "contractHash compiler_json = Inr h"
    and "fs w (outputJson h) = Some (File cached)"
  shows "execs (snd (work_on_json env compiler_version compiler_json contract_name w)) = execs w
       \<and> (\<forall>augmented version output lines result remappings.
             augment compiler_json = Inr augmented \<longrightarrow>
             fs w ''.tmp'' = Some Dir \<longrightarrow>
             compiler_version = Str version \<longrightarrow>
             env_parse env cached = Inr output \<longrightarrow>
             handleBuildResult (env_get_ast env) (env_get_invariants env) output compiler_version
               augmented contract_name = (lines, Inr result) \<longrightarrow>
             get_path augmented [''settings'', ''remappings''] = Inr remappings \<longrightarrow>
             fst (work_on_json env compiler_version compiler_json contract_name w)
               = Resolved (Success remappings result))"
proof (intro conjI allI impI)
  obtain r w1 where c: "cache_entry compiler_json w = (r, w1)"
    by (cases "cache_entry compiler_json w")
  note keeps = cache_entry_keeps [OF c]
  show "execs (snd (work_on_json env compiler_version compiler_json contract_name w)) = execs w"
  proof (cases r)
    case (Inl e)
    with c keeps(1) show ?thesis
      by (simp add: work_on_json_def)
  next
    case (Inr p)
    obtain h' augmented where p: "p = (h', augmented)" by (cases p)
    with c Inr assms(1) have "h' = h"
      by (auto dest: cache_entry_hash)
    with keeps(3) [OF assms(2)] have "fs w1 (outputJson h') = Some (File cached)"
      by simp
    with c Inr p keeps(1) show ?thesis
      by (simp add: work_on_json_def Let_def existsSync_def normalize_output_execs
            split: jsv.splits option.splits)
  qed
next
  fix augmented version out lines result remappings
  assume a: "augment compiler_json = Inr augmented"
    and d: "fs w ''.tmp'' = Some Dir"
    and v: "compiler_version = Str version"
    and o: "env_parse env cached = Inr out"
    and b: "handleBuildResult (env_get_ast env) (env_get_invariants env) out compiler_version
               augmented contract_name = (lines, Inr result)"
    and g: "get_path augmented [''settings'', ''remappings''] = Inr remappings"
  from cache_entry_succeeds [OF assms(1) a d] obtain w1 where
    c: "cache_entry compiler_json w = (Inr (h, augmented), w1)"
    by blast
  from cache_entry_keeps(3) [OF c assms(2)] have f: "fs w1 (outputJson h) = Some (File cached)" .
  have "fst (normalize_output env compiler_version augmented contract_name (outputJson h) w2)
      = Resolved (Success remappings result)" if "fs w2 = fs w1" for w2
    using f that o b g by (intro normalize_output_resolves) simp_all
  with c v f show "fst (work_on_json env compiler_version compiler_json contract_name w)
      = Resolved (Success remappings result)"
    by (simp add: work_on_json_def Let_def existsSync_def split: option.splits)
qed

text \<open>The same for the cached output of a compilation of nothing.\<close>

theorem cache_hit_skips_compiler_witness:
  "fs compiled_world (outputJson ''766891c1199d5058484142e04f212918'') = Some (File empty_output_text)
   \<and> execs (snd (work_on_json example_env (Str ''v0.8.20'') input_without_settings Undefined
                   compiled_world)) = []
   \<and> (\<exists>result. fst (work_on_json example_env (Str ''v0.8.20'') input_without_settings Undefined
                       compiled_world) = Resolved (Success Undefined result))"
proof -
  have f: "fs compiled_world (outputJson ''766891c1199d5058484142e04f212918'')
      = Some (File empty_output_text)"
    by (simp add: compiled_world_def outputJson_def)
  have d: "fs compiled_world ''.tmp'' = Some Dir"
    by (simp add: compiled_world_def)
  have p: "env_parse example_env empty_output_text = Inr empty_output"
    by (simp add: example_env_def empty_output_text_def failed_output_text_def)
  have g: "get_path (Obj [(''language'', Str ''Solidity''), (''sources'', Obj []),
                (''settings'', Obj [(''outputSelection'', output_selection)])])
             [''settings'', ''remappings''] = Inr Undefined"
    by (simp add: lookup_def)
  from empty_output_normalized obtain r where
    r: "handleBuildResult (env_get_ast example_env) (env_get_invariants example_env)
          empty_output (Str ''v0.8.20'')
          (Obj [(''language'', Str ''Solidity''), (''sources'', Obj []),
                (''settings'', Obj [(''outputSelection'', output_selection)])]) Undefined
        = ([Timing ''Compiling took'', Timing ''Analyzing AST took''], Inr r)"
    by blast
  from cache_hit_skips_compiler [OF hash_without_settings f,
      of example_env "Str ''v0.8.20''" Undefined]
    augment_without_settings d p r g
  have "execs (snd (work_on_json example_env (Str ''v0.8.20'') input_without_settings Undefined
                   compiled_world)) = execs compiled_world"
    and "fst (work_on_json example_env (Str ''v0.8.20'') input_without_settings Undefined
                       compiled_world) = Resolved (Success Undefined r)"
    by blast+
  with f show ?thesis
    by (auto simp: compiled_world_def)
qed

text \<open>
  Claim C8 as it is written promises a successful result on every cache hit. Here the
  cached output reports a compilation error, and the promise of \<^verbatim>\<open>work_on_json\<close> is
  never resolved.
\<close>

theorem cache_hit_counterexample:
  "fs cached_world ''.tmp/compile_output_766891c1199d5058484142e04f212918.json''
     = Some (File failed_output_text)
   \<and> contractHash input_without_settings = Inr ''766891c1199d5058484142e04f212918''
   \<and> fst (work_on_json example_env (Str ''v0.8.20'') input_without_settings (Str [])
            cached_world) = Unsettled (ReferenceError ''resolve'')"
proof -
  have h: "handleBuildResult get_ast get_invariants failed_output cv cj name
      = ([Log [Str ''ParserError: Expected pragma'']], Inl (ReferenceError ''resolve''))"
    for get_ast get_invariants cv cj name
    by (simp add: handleBuildResult_def merged_def optional_get_def lookup_def failed_output_def)
  show ?thesis
    by (simp add: work_on_json_def cache_entry_def hash_without_settings augment_without_settings
          h Let_def existsSync_def writeFileSync_def print_def currentFile_def outputJson_def
          normalize_output_def readFileSync_def example_env_def cached_world_def
          version_at_def is_digit_def)
qed

end
